theory Spec2Isabelle
  imports Main "HOL-Library.AList"
begin

section \<open>Errors and panics\<close>

text \<open>
  Go's \<open>error\<close> values as far as webchan tells them apart: the two sentinels the receive
  routine tests for (\<open>net.ErrClosed\<close>, \<open>io.EOF\<close>), a plain message
  (\<open>errors.New\<close>, \<open>fmt.Errorf\<close> without \<open>%w\<close>), an error of the standard library
  that wraps another one and has an \<open>Unwrap\<close> method (\<open>*net.OpError\<close>), and the two
  wrappers of the package itself, \<open>sendError\<close> and \<open>recvError\<close>, which have a field
  \<open>Err\<close> and no \<open>Unwrap\<close> method.
\<close>

datatype error =
    ErrClosed
  | EOF
  | ErrorString string
  | OpError string error
  | sendError error
  | recvError error

text \<open>\<open>errors.Is\<close>: equality with the target, along the chain of \<open>Unwrap\<close>.\<close>

fun errors_Is :: "error \<Rightarrow> error \<Rightarrow> bool" where
  "errors_Is (OpError opn e) target = (OpError opn e = target \<or> errors_Is e target)"
| "errors_Is e target = (e = target)"

text \<open>
  A panic carries either the value given to \<open>panic\<close> or a run-time error of the Go
  runtime (sending on a closed channel, closing a closed channel, a channel size out
  of range).
\<close>

datatype panic = PanicError error | RuntimePanic string

section \<open>Channels\<close>

text \<open>
  A Go channel: the values sent and not yet received, oldest first, the capacity given to
  \<open>make\<close>, and whether \<open>close\<close> has been called. The goroutine at the other
  end of a channel is not part of a run of a routine below: a routine that has to wait for
  it stops there, and its result says what it waits for.
\<close>

record 'a chan =
  chan_buf :: "'a list"
  chan_cap :: nat
  chan_closed :: bool

text \<open>
  \<open>make(chan T, n)\<close>: the runtime panics when \<open>n\<close> is negative and when the buffer
  would be larger than it can allocate. \<open>limit\<close> is the largest size it accepts; it
  depends on the platform and lies within the range of a Go \<open>int\<close>, so a size that
  no \<open>int\<close> holds is refused as well.
\<close>

definition make_chan :: "int \<Rightarrow> int \<Rightarrow> panic + 'a chan" where
  "make_chan limit n =
     (if n < 0 \<or> limit < n then Inl (RuntimePanic ''makechan: size out of range'')
      else Inr \<lparr>chan_buf = [], chan_cap = nat n, chan_closed = False\<rparr>)"

text \<open>
  \<open>v, ok := <-c\<close>: the oldest value with \<open>ok = true\<close>; on a closed and drained channel
  the zero value with \<open>ok = false\<close>, at once; otherwise the receiver waits.
\<close>

datatype 'a recv_result = Received 'a | RecvClosed | RecvBlocks

definition chan_recv :: "'a chan \<Rightarrow> 'a recv_result \<times> 'a chan" where
  "chan_recv c =
     (case chan_buf c of
        x # xs \<Rightarrow> (Received x, c\<lparr>chan_buf := xs\<rparr>)
      | [] \<Rightarrow> (if chan_closed c then (RecvClosed, c) else (RecvBlocks, c)))"

text \<open>
  \<open>c <- v\<close>: a panic on a closed channel; the value joins the queue when there is room;
  otherwise the sender waits. Inside a \<open>select\<close> with a \<open>default\<close> branch the
  waiting outcome selects \<open>default\<close>.
\<close>

datatype 'a send_result = Sent "'a chan" | SendBlocks | SendPanics panic

definition chan_send :: "'a chan \<Rightarrow> 'a \<Rightarrow> 'a send_result" where
  "chan_send c v =
     (if chan_closed c then SendPanics (RuntimePanic ''send on closed channel'')
      else if length (chan_buf c) < chan_cap c then Sent (c\<lparr>chan_buf := chan_buf c @ [v]\<rparr>)
      else SendBlocks)"

definition chan_close :: "'a chan \<Rightarrow> panic + 'a chan" where
  "chan_close c =
     (if chan_closed c then Inl (RuntimePanic ''close of closed channel'')
      else Inr (c\<lparr>chan_closed := True\<rparr>))"

section \<open>The socket and the JSON codec\<close>

text \<open>
  The byte stream and \<open>encoding/json\<close> are outside the package. The stream is seen at
  the level of whole JSON texts (type \<open>'j\<close>): one \<open>Encode\<close> writes one text, one
  \<open>Decode\<close> reads one.

  What the socket will answer to successive reads is given beforehand as a list of events:
  a JSON text that arrived, or a failure of the read. When the list is used up, a read waits.
  What it answers to successive writes is a list too: \<open>None\<close> lets the write through,
  \<open>Some e\<close> fails it with \<open>e\<close>; past the end of the list every write goes through.
  \<open>sock_wire\<close> collects what has been written, \<open>sock_closes\<close> counts the calls of
  \<open>Close\<close>. A socket that has been closed on this side fails every read and every
  write with a \<open>*net.OpError\<close> around \<open>net.ErrClosed\<close>, as the connections of
  package \<open>net\<close> do, and takes nothing off the stream.

  The one \<open>json.Encoder\<close> and the one \<open>json.Decoder\<close> that \<open>NewNamedWebChan\<close> puts
  on the socket keep an error between calls, and what they keep is held with the socket:
  \<open>enc_err\<close> is the error of a write that failed, \<open>dec_err\<close> the error of a read that
  failed (a failure of the read, or bytes that are not JSON, both events \<open>Fault\<close>).
\<close>

datatype 'j rd_event = Item 'j | Fault error

record 'j conn =
  sock_rd :: "'j rd_event list"
  sock_wire :: "'j list"
  sock_wfaults :: "error option list"
  sock_closed :: bool
  sock_closes :: nat
  enc_err :: "error option"
  dec_err :: "error option"

definition sock_Write :: "'j conn \<Rightarrow> 'j \<Rightarrow> error option \<times> 'j conn" where
  "sock_Write s j =
     (if sock_closed s then (Some (OpError ''write'' ErrClosed), s)
      else case sock_wfaults s of
             [] \<Rightarrow> (None, s\<lparr>sock_wire := sock_wire s @ [j]\<rparr>)
           | None # fs \<Rightarrow> (None, s\<lparr>sock_wire := sock_wire s @ [j], sock_wfaults := fs\<rparr>)
           | Some e # fs \<Rightarrow> (Some e, s\<lparr>sock_wfaults := fs\<rparr>))"

datatype 'a read_result = Decoded 'a | DecodeError error | DecodeBlocks

definition sock_Read :: "'j conn \<Rightarrow> 'j read_result \<times> 'j conn" where
  "sock_Read s =
     (if sock_closed s then (DecodeError (OpError ''read'' ErrClosed), s)
      else case sock_rd s of
             [] \<Rightarrow> (DecodeBlocks, s)
           | Fault e # r \<Rightarrow> (DecodeError e, s\<lparr>sock_rd := r\<rparr>)
           | Item j # r \<Rightarrow> (Decoded j, s\<lparr>sock_rd := r\<rparr>))"

definition sock_Close :: "'j conn \<Rightarrow> 'j conn" where
  "sock_Close s = s\<lparr>sock_closed := True, sock_closes := Suc (sock_closes s)\<rparr>"

text \<open>
  What the other end of the stream reads from a socket: the texts written to it, in the
  order of writing, then end-of-stream once the socket is closed.
\<close>

definition remote_reads :: "'j conn \<Rightarrow> 'j rd_event list" where
  "remote_reads s = map Item (sock_wire s) @ (if sock_closed s then [Fault EOF] else [])"

text \<open>
  The library functions webchan calls, over values \<open>'v\<close> (what an \<open>interface{}\<close>
  holds) and type descriptors \<open>'t\<close> (\<open>reflect.Type\<close>):
  \<open>reflect.TypeOf\<close>; the text \<open>%T\<close> prints for a type; the JSON text of a value, or
  the encoder's error; the JSON text of a Go string; decoding a JSON text into a fresh
  instance of a type (\<open>reflect.New(t)\<close>, read back with \<open>Elem().Interface()\<close>), or
  the decoder's error; decoding a JSON text into a \<open>string\<close> variable; and the
  largest buffer size \<open>make\<close> accepts for a channel.
\<close>

record ('v, 't, 'j) golib =
  TypeOf :: "'v \<Rightarrow> 't"
  TypeString :: "'t \<Rightarrow> string"
  Marshal :: "'v \<Rightarrow> error + 'j"
  MarshalString :: "string \<Rightarrow> 'j"
  Unmarshal :: "'t \<Rightarrow> 'j \<Rightarrow> error + 'v"
  UnmarshalString :: "'j \<Rightarrow> error + string"
  MaxChanSize :: int

text \<open>\<open>fmt.Sprintf("%T", v)\<close>\<close>

definition Sprintf_T :: "('v, 't, 'j) golib \<Rightarrow> 'v \<Rightarrow> string" where
  "Sprintf_T lib v = TypeString lib (TypeOf lib v)"

text \<open>
  \<open>encoder.Encode\<close>: an encoder that has kept the error of an earlier write returns it
  and does nothing else. Otherwise a value that cannot be encoded fails before anything is
  written, and that error is not kept; the error of a failed write is kept.
\<close>

definition enc_Write :: "'j conn \<Rightarrow> 'j \<Rightarrow> error option \<times> 'j conn" where
  "enc_Write s j =
     (case sock_Write s j of
        (Some e, s') \<Rightarrow> (Some e, s'\<lparr>enc_err := Some e\<rparr>)
      | (None, s') \<Rightarrow> (None, s'))"

definition Encode :: "('v, 't, 'j) golib \<Rightarrow> 'j conn \<Rightarrow> 'v \<Rightarrow> error option \<times> 'j conn" where
  "Encode lib s v =
     (case enc_err s of
        Some e \<Rightarrow> (Some e, s)
      | None \<Rightarrow>
          (case Marshal lib v of
             Inl e \<Rightarrow> (Some e, s)
           | Inr j \<Rightarrow> enc_Write s j))"

definition Encode_string :: "('v, 't, 'j) golib \<Rightarrow> 'j conn \<Rightarrow> string \<Rightarrow> error option \<times> 'j conn" where
  "Encode_string lib s n =
     (case enc_err s of
        Some e \<Rightarrow> (Some e, s)
      | None \<Rightarrow> enc_Write s (MarshalString lib n))"

text \<open>
  \<open>decoder.Decode\<close>: a decoder that has kept the error of an earlier read returns it and
  reads nothing. Otherwise the error of a failed read is kept. The next JSON text is taken
  off the stream also when it does not fit the target, and that error is not kept.
\<close>

definition dec_Read :: "'j conn \<Rightarrow> 'j read_result \<times> 'j conn" where
  "dec_Read s =
     (case dec_err s of
        Some e \<Rightarrow> (DecodeError e, s)
      | None \<Rightarrow>
          (case sock_Read s of
             (DecodeError e, s') \<Rightarrow> (DecodeError e, s'\<lparr>dec_err := Some e\<rparr>)
           | (r, s') \<Rightarrow> (r, s')))"

definition Decode :: "('v, 't, 'j) golib \<Rightarrow> 't \<Rightarrow> 'j conn \<Rightarrow> 'v read_result \<times> 'j conn" where
  "Decode lib t s =
     (case dec_Read s of
        (Decoded j, s') \<Rightarrow>
          (case Unmarshal lib t j of
             Inl e \<Rightarrow> (DecodeError e, s')
           | Inr v \<Rightarrow> (Decoded v, s'))
      | (DecodeError e, s') \<Rightarrow> (DecodeError e, s')
      | (DecodeBlocks, s') \<Rightarrow> (DecodeBlocks, s'))"

definition Decode_string :: "('v, 't, 'j) golib \<Rightarrow> 'j conn \<Rightarrow> string read_result \<times> 'j conn" where
  "Decode_string lib s =
     (case dec_Read s of
        (Decoded j, s') \<Rightarrow>
          (case UnmarshalString lib j of
             Inl e \<Rightarrow> (DecodeError e, s')
           | Inr n \<Rightarrow> (Decoded n, s'))
      | (DecodeError e, s') \<Rightarrow> (DecodeError e, s')
      | (DecodeBlocks, s') \<Rightarrow> (DecodeBlocks, s'))"

section \<open>WebChan\<close>

text \<open>
  The struct. \<open>allowedTypes\<close> is a Go map; it is kept as the list of its entries in the
  order a \<open>range\<close> statement visits them, which Go leaves open, so nothing below relies
  on a particular order. The encoder and the decoder act on \<open>soc\<close>, and what they
  keep between calls is held there.
\<close>

record ('v, 't, 'j) WebChan =
  Send :: "'v chan"
  Recv :: "'v chan"
  Error :: "error chan"
  closeRecvChan :: "unit chan"
  soc :: "'j conn"
  allowedTypes :: "(string \<times> 't) list"

definition getAllowedTypeName ::
  "('v, 't, 'j) golib \<Rightarrow> ('v, 't, 'j) WebChan \<Rightarrow> 'v \<Rightarrow> string \<times> bool" where
  "getAllowedTypeName lib wc data =
     (let t = TypeOf lib data in
      case find (\<lambda>(k, v). v = t) (allowedTypes wc) of
        Some (k, v) \<Rightarrow> (k, True)
      | None \<Rightarrow> ('''', False))"

text \<open>
  \<open>createTypeInterfaceReflectPointer\<close>: the pointer \<open>reflect.New(t)\<close> to a fresh zero
  value is determined by \<open>t\<close>, so the type stands for it; \<open>None\<close> is the result
  \<open>(reflect.Value{}, false)\<close>.
\<close>

definition createTypeInterfaceReflectPointer ::
  "('v, 't, 'j) WebChan \<Rightarrow> string \<Rightarrow> 't option" where
  "createTypeInterfaceReflectPointer wc typeName =
     (case map_of (allowedTypes wc) typeName of
        None \<Rightarrow> None
      | Some t \<Rightarrow> Some t)"

text \<open>
  \<open>tryPushError\<close>: a \<open>select\<close> of a send on \<open>Error\<close> with a \<open>default\<close> branch. The
  line the default branch prints on standard output is not part of the state.
\<close>

definition tryPushError ::
  "('v, 't, 'j) WebChan \<Rightarrow> error \<Rightarrow> panic + ('v, 't, 'j) WebChan" where
  "tryPushError wc err =
     (case chan_send (Error wc) err of
        Sent c \<Rightarrow> Inr (wc\<lparr>Error := c\<rparr>)
      | SendBlocks \<Rightarrow> Inr wc
      | SendPanics p \<Rightarrow> Inl p)"

text \<open>
  \<open>Close\<close>: a \<open>select\<close> of a receive on \<open>closeRecvChan\<close> with a \<open>default\<close> branch.
  The error \<open>soc.Close()\<close> returns is dropped by the source.
\<close>

definition Close :: "('v, 't, 'j) WebChan \<Rightarrow> panic + ('v, 't, 'j) WebChan" where
  "Close wc =
     (case chan_recv (closeRecvChan wc) of
        (RecvClosed, c) \<Rightarrow> Inr wc
      | (Received x, c) \<Rightarrow> Inr (wc\<lparr>closeRecvChan := c\<rparr>)
      | (RecvBlocks, c) \<Rightarrow>
          (case chan_close (closeRecvChan wc) of
             Inl p \<Rightarrow> Inl p
           | Inr c1 \<Rightarrow>
               (case chan_close (Send wc) of
                  Inl p \<Rightarrow> Inl p
                | Inr c2 \<Rightarrow>
                    Inr (wc\<lparr>closeRecvChan := c1, Send := c2, soc := sock_Close (soc wc)\<rparr>))))"

subsection \<open>Construction\<close>

text \<open>
  \<open>NewNamedWebChan\<close> without the two goroutines it starts, which are \<open>send_routine\<close>
  and \<open>recv_routine\<close> below. Its argument is a Go map, given as the list of its entries.
  The socket comes with a fresh encoder and a fresh decoder.
\<close>

definition NewNamedWebChan ::
  "('v, 't, 'j) golib \<Rightarrow> 'j conn \<Rightarrow> int \<Rightarrow> (string \<times> 'v) list \<Rightarrow> panic + ('v, 't, 'j) WebChan" where
  "NewNamedWebChan lib s bufLength allowedTypes' =
     (let allowedTypesReflect =
            foldl (\<lambda>m (k, v). AList.update k (TypeOf lib v) m) [] allowedTypes'
      in case make_chan (MaxChanSize lib) bufLength of
           Inl p \<Rightarrow> Inl p
         | Inr c1 \<Rightarrow>
        (case make_chan (MaxChanSize lib) bufLength of
           Inl p \<Rightarrow> Inl p
         | Inr c2 \<Rightarrow>
        (case make_chan (MaxChanSize lib) 100 of
           Inl p \<Rightarrow> Inl p
         | Inr c3 \<Rightarrow>
        (case make_chan (MaxChanSize lib) 0 of
           Inl p \<Rightarrow> Inl p
         | Inr c4 \<Rightarrow>
             Inr \<lparr>Send = c1, Recv = c2, Error = c3, closeRecvChan = c4,
                  soc = s\<lparr>enc_err := None, dec_err := None\<rparr>,
                  allowedTypes = allowedTypesReflect\<rparr>))))"

definition NewWebChan ::
  "('v, 't, 'j) golib \<Rightarrow> 'j conn \<Rightarrow> int \<Rightarrow> 'v list \<Rightarrow> panic + ('v, 't, 'j) WebChan" where
  "NewWebChan lib s bufLength allowedTypes' =
     (let allowedTypesMap =
            foldl (\<lambda>m v. AList.update (Sprintf_T lib v) v m) [] allowedTypes'
      in NewNamedWebChan lib s bufLength allowedTypesMap)"

subsection \<open>The two routines\<close>

text \<open>
  How a routine stands when it can go no further: it has returned, it waits on a channel
  or on the socket, or it has panicked. A routine that waits for room on \<open>Recv\<close> holds
  the value it is about to send; one that waits for a payload has read the type name.
\<close>

datatype 'v status =
    Returned
  | BlockedOnSendChan
  | BlockedOnRead
  | BlockedOnPayload string
  | BlockedOnRecvChan 'v
  | Panicked panic

datatype ('v, 's) flow = Continue 's | Stop "'v status" 's

text \<open>One pass through the body of the \<open>for\<close> loop of the send routine.\<close>

definition send_iteration ::
  "('v, 't, 'j) golib \<Rightarrow> ('v, 't, 'j) WebChan \<Rightarrow> ('v, ('v, 't, 'j) WebChan) flow" where
  "send_iteration lib wc =
     (case chan_recv (Send wc) of
        (RecvBlocks, c) \<Rightarrow> Stop BlockedOnSendChan wc
      | (RecvClosed, c) \<Rightarrow> Stop Returned wc
      | (Received data, c) \<Rightarrow>
          (let wc1 = wc\<lparr>Send := c\<rparr>;
               (typeName, ok) = getAllowedTypeName lib wc1 data
           in if \<not> ok then
                Stop (Panicked (PanicError (sendError
                  (ErrorString (''type not allowed: '' @ Sprintf_T lib data))))) wc1
              else
                (let (err, s1) = Encode_string lib (soc wc1) typeName;
                     (err, s2) = (if err = None then Encode lib s1 data else (err, s1));
                     wc2 = wc1\<lparr>soc := s2\<rparr>
                 in case err of
                      Some e \<Rightarrow>
                        (case tryPushError wc2 (sendError e) of
                           Inl p \<Rightarrow> Stop (Panicked p) wc2
                         | Inr wc3 \<Rightarrow> Continue wc3)
                    | None \<Rightarrow> Continue wc2)))"

text \<open>One pass through the body of the \<open>for\<close> loop of the receive routine.\<close>

definition recv_iteration ::
  "('v, 't, 'j) golib \<Rightarrow> ('v, 't, 'j) WebChan \<Rightarrow> ('v, ('v, 't, 'j) WebChan) flow" where
  "recv_iteration lib wc =
     (case chan_recv (closeRecvChan wc) of
        (Received x, c) \<Rightarrow> Stop Returned (wc\<lparr>closeRecvChan := c\<rparr>)
      | (RecvClosed, c) \<Rightarrow> Stop Returned wc
      | (RecvBlocks, c) \<Rightarrow>
          (case Decode_string lib (soc wc) of
             (DecodeBlocks, s) \<Rightarrow> Stop BlockedOnRead wc
           | (DecodeError err, s) \<Rightarrow>
               (let wc1 = wc\<lparr>soc := s\<rparr>
                in if errors_Is err ErrClosed \<or> errors_Is err EOF then Stop Returned wc1
                   else (case tryPushError wc1 (recvError err) of
                           Inl p \<Rightarrow> Stop (Panicked p) wc1
                         | Inr wc2 \<Rightarrow> Continue wc2))
           | (Decoded typeName, s) \<Rightarrow>
               (let wc1 = wc\<lparr>soc := s\<rparr>
                in case createTypeInterfaceReflectPointer wc1 typeName of
                     None \<Rightarrow>
                       (case tryPushError wc1
                               (recvError (ErrorString (''type not allowed: '' @ typeName))) of
                          Inl p \<Rightarrow> Stop (Panicked p) wc1
                        | Inr wc2 \<Rightarrow> Continue wc2)
                   | Some t \<Rightarrow>
                       (case Decode lib t (soc wc1) of
                          (DecodeBlocks, s') \<Rightarrow> Stop (BlockedOnPayload typeName) wc1
                        | (DecodeError err, s') \<Rightarrow>
                            (let wc2 = wc1\<lparr>soc := s'\<rparr>
                             in if errors_Is err ErrClosed \<or> errors_Is err EOF
                                then Stop Returned wc2
                                else (case tryPushError wc2 (recvError err) of
                                        Inl p \<Rightarrow> Stop (Panicked p) wc2
                                      | Inr wc3 \<Rightarrow> Continue wc3))
                        | (Decoded v, s') \<Rightarrow>
                            (let wc2 = wc1\<lparr>soc := s'\<rparr>
                             in case chan_send (Recv wc2) v of
                                  Sent c' \<Rightarrow> Continue (wc2\<lparr>Recv := c'\<rparr>)
                                | SendBlocks \<Rightarrow> Stop (BlockedOnRecvChan v) wc2
                                | SendPanics p \<Rightarrow> Stop (Panicked p) wc2)))))"

text \<open>
  The send routine: the loop runs until the body stops it. Every pass that continues has
  taken a value off \<open>Send\<close>.
\<close>

function send_routine ::
  "('v, 't, 'j) golib \<Rightarrow> ('v, 't, 'j) WebChan \<Rightarrow> 'v status \<times> ('v, 't, 'j) WebChan" where
  "send_routine lib wc =
     (case send_iteration lib wc of
        Continue wc' \<Rightarrow> send_routine lib wc'
      | Stop st wc' \<Rightarrow> (st, wc'))"
  by pat_completeness auto
termination
proof (relation "measure (\<lambda>(lib, wc). length (chan_buf (Send wc)))")
  show "wf (measure (\<lambda>(lib, wc). length (chan_buf (Send wc))))" by simp
next
  fix lib :: "('v, 't, 'j) golib" and wc wc' :: "('v, 't, 'j) WebChan"
  assume "send_iteration lib wc = Continue wc'"
  then have "\<exists>data. chan_buf (Send wc) = data # chan_buf (Send wc')"
    by (auto simp: send_iteration_def chan_recv_def Let_def tryPushError_def
             split: list.splits if_splits prod.splits option.splits sum.splits
                    send_result.splits)
  then show "((lib, wc'), (lib, wc)) \<in> measure (\<lambda>(lib, wc). length (chan_buf (Send wc)))"
    by auto
qed

text \<open>
  The loop of the receive routine. It need not come to an end: once the decoder has kept
  an error outside the stream-closed class, every pass gets that error again, offers it
  to the error queue and continues. \<open>None\<close> is the loop that runs for ever.
\<close>

partial_function (option) recv_loop ::
  "('v, 't, 'j) golib \<Rightarrow> ('v, 't, 'j) WebChan \<Rightarrow> ('v status \<times> ('v, 't, 'j) WebChan) option" where
  "recv_loop lib wc =
     (case recv_iteration lib wc of
        Continue wc' \<Rightarrow> recv_loop lib wc'
      | Stop st wc' \<Rightarrow> Some (st, wc'))"

text \<open>
  The receive routine: the loop under \<open>defer close(wc.Recv)\<close>. The deferred call runs
  when the loop returns and when it panics; it does not run while the routine waits.
\<close>

definition deferred_close ::
  "'v status \<Rightarrow> ('v, 't, 'j) WebChan \<Rightarrow> 'v status \<times> ('v, 't, 'j) WebChan" where
  "deferred_close st wc =
     (case chan_close (Recv wc) of
        Inl p \<Rightarrow> (Panicked p, wc)
      | Inr c \<Rightarrow> (st, wc\<lparr>Recv := c\<rparr>))"

definition recv_routine ::
  "('v, 't, 'j) golib \<Rightarrow> ('v, 't, 'j) WebChan \<Rightarrow> ('v status \<times> ('v, 't, 'j) WebChan) option" where
  "recv_routine lib wc =
     (case recv_loop lib wc of
        None \<Rightarrow> None
      | Some (Returned, wc') \<Rightarrow> Some (deferred_close Returned wc')
      | Some (Panicked p, wc') \<Rightarrow> Some (deferred_close (Panicked p) wc')
      | Some (st, wc') \<Rightarrow> Some (st, wc'))"

section \<open>A small instance\<close>

text \<open>
  Values, types and JSON texts of a program that sends strings, integers and points; a
  Go channel is a value \<open>encoding/json\<close> refuses to encode.
\<close>

datatype ex_type = TString | TInt | TPoint | TChan

datatype ex_value = VString string | VInt int | VPoint int int | VChan

datatype ex_json = JString string | JNumber int | JObject "(string \<times> int) list"

fun ex_TypeOf :: "ex_value \<Rightarrow> ex_type" where
  "ex_TypeOf (VString s) = TString"
| "ex_TypeOf (VInt n) = TInt"
| "ex_TypeOf (VPoint x y) = TPoint"
| "ex_TypeOf VChan = TChan"

fun ex_TypeString :: "ex_type \<Rightarrow> string" where
  "ex_TypeString TString = ''string''"
| "ex_TypeString TInt = ''int''"
| "ex_TypeString TPoint = ''webchan.point''"
| "ex_TypeString TChan = ''chan int''"

fun ex_Marshal :: "ex_value \<Rightarrow> error + ex_json" where
  "ex_Marshal (VString s) = Inr (JString s)"
| "ex_Marshal (VInt n) = Inr (JNumber n)"
| "ex_Marshal (VPoint x y) = Inr (JObject [(''X'', x), (''Y'', y)])"
| "ex_Marshal VChan = Inl (ErrorString ''json: unsupported type: chan int'')"

fun ex_Unmarshal :: "ex_type \<Rightarrow> ex_json \<Rightarrow> error + ex_value" where
  "ex_Unmarshal TString (JString s) = Inr (VString s)"
| "ex_Unmarshal TInt (JNumber n) = Inr (VInt n)"
| "ex_Unmarshal TPoint (JObject [(kx, x), (ky, y)]) =
     (if kx = ''X'' \<and> ky = ''Y'' then Inr (VPoint x y)
      else Inl (ErrorString ''json: cannot unmarshal''))"
| "ex_Unmarshal t j = Inl (ErrorString ''json: cannot unmarshal'')"

fun ex_UnmarshalString :: "ex_json \<Rightarrow> error + string" where
  "ex_UnmarshalString (JString s) = Inr s"
| "ex_UnmarshalString j = Inl (ErrorString ''json: cannot unmarshal into Go value of type string'')"

definition ex_lib :: "(ex_value, ex_type, ex_json) golib" where
  "ex_lib = \<lparr>TypeOf = ex_TypeOf, TypeString = ex_TypeString, Marshal = ex_Marshal,
             MarshalString = JString, Unmarshal = ex_Unmarshal,
             UnmarshalString = ex_UnmarshalString, MaxChanSize = 2 ^ 40\<rparr>"

text \<open>A socket on which nothing has happened yet, and one with a given incoming stream.\<close>

definition ex_sock :: "ex_json conn" where
  "ex_sock = \<lparr>sock_rd = [], sock_wire = [], sock_wfaults = [], sock_closed = False,
              sock_closes = 0, enc_err = None, dec_err = None\<rparr>"

text \<open>
  An endpoint as \<open>NewNamedWebChan\<close> builds it for the names \<open>greeting\<close> and
  \<open>point\<close>, with queues of length 2.
\<close>

definition ex_wc :: "(ex_value, ex_type, ex_json) WebChan" where
  "ex_wc = \<lparr>Send = \<lparr>chan_buf = [], chan_cap = 2, chan_closed = False\<rparr>,
            Recv = \<lparr>chan_buf = [], chan_cap = 2, chan_closed = False\<rparr>,
            Error = \<lparr>chan_buf = [], chan_cap = 100, chan_closed = False\<rparr>,
            closeRecvChan = \<lparr>chan_buf = [], chan_cap = 0, chan_closed = False\<rparr>,
            soc = ex_sock,
            allowedTypes = [(''greeting'', TString), (''point'', TPoint)]\<rparr>"

section \<open>Notions used in the statements\<close>

text \<open>No shutdown has been signalled: \<open>closeRecvChan\<close> is open (nothing is ever sent on it).\<close>

definition no_shutdown :: "('v, 't, 'j) WebChan \<Rightarrow> bool" where
  "no_shutdown wc = (\<not> chan_closed (closeRecvChan wc) \<and> chan_buf (closeRecvChan wc) = [])"

text \<open>The error queue after an error has been offered to it: taken if there is room, else dropped.\<close>

definition lossy_push :: "'a chan \<Rightarrow> 'a \<Rightarrow> 'a chan" where
  "lossy_push c x = (if length (chan_buf c) < chan_cap c then c\<lparr>chan_buf := chan_buf c @ [x]\<rparr> else c)"

text \<open>The stream-closed class of errors, as the receive routine tests it.\<close>

definition stream_closed :: "error \<Rightarrow> bool" where
  "stream_closed err = (errors_Is err ErrClosed \<or> errors_Is err EOF)"

text \<open>
  The two writes of one frame: the type name, then, if that went through, the value. The
  result is the error the send routine tests, and the socket afterwards.
\<close>

definition write_frame ::
  "('v, 't, 'j) golib \<Rightarrow> 'j conn \<Rightarrow> string \<Rightarrow> 'v \<Rightarrow> error option \<times> 'j conn" where
  "write_frame lib s n data =
     (case Encode_string lib s n of
        (None, s1) \<Rightarrow> Encode lib s1 data
      | (Some e, s1) \<Rightarrow> (Some e, s1))"

text \<open>
  The socket after the decoder has read the event \<open>ev\<close>, \<open>rest\<close> being what is left
  of the stream: a failure of the read is kept by the decoder.
\<close>

definition after_read :: "'j conn \<Rightarrow> 'j rd_event \<Rightarrow> 'j rd_event list \<Rightarrow> 'j conn" where
  "after_read s ev rest =
     (case ev of
        Item j \<Rightarrow> s\<lparr>sock_rd := rest\<rparr>
      | Fault e \<Rightarrow> s\<lparr>sock_rd := rest, dec_err := Some e\<rparr>)"

text \<open>
  What a read of a type name, and a read of a payload for type \<open>t\<close>, make of the next
  event of the stream, when the decoder has kept no error.
\<close>

definition read_name :: "('v, 't, 'j) golib \<Rightarrow> 'j rd_event \<Rightarrow> error + string" where
  "read_name lib ev = (case ev of Fault e \<Rightarrow> Inl e | Item j \<Rightarrow> UnmarshalString lib j)"

definition read_payload :: "('v, 't, 'j) golib \<Rightarrow> 't \<Rightarrow> 'j rd_event \<Rightarrow> error + 'v" where
  "read_payload lib t ev = (case ev of Fault e \<Rightarrow> Inl e | Item j \<Rightarrow> Unmarshal lib t j)"

text \<open>
  The receive routine is at work: no shutdown has been signalled, the socket has not been
  closed on this side, the decoder has kept no error, and \<open>Recv\<close> and \<open>Error\<close> are
  open, as they are from construction on (the package closes \<open>Recv\<close> only when the
  routine ends, and \<open>Error\<close> never).
\<close>

definition receiving :: "('v, 't, 'j) WebChan \<Rightarrow> bool" where
  "receiving wc =
     (no_shutdown wc \<and> \<not> sock_closed (soc wc) \<and> dec_err (soc wc) = None
      \<and> \<not> chan_closed (Recv wc) \<and> \<not> chan_closed (Error wc))"

text \<open>
  An event of the incoming stream that ends the receive routine when it is read: a failure
  of the stream-closed class, be it of the read itself or of the decoder, as a type name
  or as a payload of a registered type.
\<close>

definition closes_stream ::
  "('v, 't, 'j) golib \<Rightarrow> (string \<times> 't) list \<Rightarrow> 'j rd_event \<Rightarrow> bool" where
  "closes_stream lib reg ev =
     (case ev of
        Fault e \<Rightarrow> stream_closed e
      | Item j \<Rightarrow>
          (case UnmarshalString lib j of Inl e \<Rightarrow> stream_closed e | Inr n \<Rightarrow> False)
          \<or> (\<exists>t \<in> snd ` set reg.
                case Unmarshal lib t j of Inl e \<Rightarrow> stream_closed e | Inr v \<Rightarrow> False))"

text \<open>The routine has neither returned nor panicked: it waits.\<close>

definition waits :: "'v status \<Rightarrow> bool" where
  "waits st = (case st of Returned \<Rightarrow> False | Panicked p \<Rightarrow> False | _ \<Rightarrow> True)"

text \<open>
  Nothing that ends the receive routine is in sight: no shutdown has been signalled, the
  socket has not been closed on this side, \<open>Recv\<close> and \<open>Error\<close> are open, the
  decoder has not kept an error of the stream-closed class, and the stream holds no event
  that closes it.
\<close>

definition undisturbed :: "('v, 't, 'j) golib \<Rightarrow> ('v, 't, 'j) WebChan \<Rightarrow> bool" where
  "undisturbed lib wc =
     (no_shutdown wc \<and> \<not> sock_closed (soc wc)
      \<and> \<not> chan_closed (Recv wc) \<and> \<not> chan_closed (Error wc)
      \<and> (case dec_err (soc wc) of None \<Rightarrow> True | Some e \<Rightarrow> \<not> stream_closed e)
      \<and> (\<forall>ev \<in> set (sock_rd (soc wc)). \<not> closes_stream lib (allowedTypes wc) ev))"

text \<open>
  What a pass of the send routine puts on the wire for a value of a registered type when
  the socket takes every write: the type name, and after it the JSON text of the value,
  if the value has one.
\<close>

definition frame_items ::
  "('v, 't, 'j) golib \<Rightarrow> ('v, 't, 'j) WebChan \<Rightarrow> 'v \<Rightarrow> 'j list" where
  "frame_items lib wc v =
     MarshalString lib (fst (getAllowedTypeName lib wc v))
       # (case Marshal lib v of Inl e \<Rightarrow> [] | Inr j \<Rightarrow> [j])"

text \<open>
  A frame on the incoming stream, with the value it stands for on this endpoint: the first
  text decodes to a registered type name, the second decodes to the value in that type.
\<close>

definition decodes_to ::
  "('v, 't, 'j) golib \<Rightarrow> ('v, 't, 'j) WebChan \<Rightarrow> 'j \<times> 'j \<times> 'v \<Rightarrow> bool" where
  "decodes_to lib wc f =
     (case f of (jn, jp, v) \<Rightarrow>
        (case UnmarshalString lib jn of
           Inl e \<Rightarrow> False
         | Inr n \<Rightarrow>
             (case map_of (allowedTypes wc) n of
                None \<Rightarrow> False
              | Some t \<Rightarrow> Unmarshal lib t jp = Inr v)))"

definition frame_events :: "('j \<times> 'j \<times> 'v) list \<Rightarrow> 'j rd_event list" where
  "frame_events fs = concat (map (\<lambda>(jn, jp, v). [Item jn, Item jp]) fs)"

definition frame_values :: "('j \<times> 'j \<times> 'v) list \<Rightarrow> 'v list" where
  "frame_values fs = map (\<lambda>(jn, jp, v). v) fs"

section \<open>Properties\<close>

declare send_routine.simps [simp del]

subsection \<open>Shutdown\<close>

lemma Close_first:
  assumes "\<not> chan_closed (closeRecvChan wc)" and "chan_buf (closeRecvChan wc) = []"
    and "\<not> chan_closed (Send wc)"
  shows "Close wc = Inr (wc\<lparr>closeRecvChan := (closeRecvChan wc)\<lparr>chan_closed := True\<rparr>,
                           Send := (Send wc)\<lparr>chan_closed := True\<rparr>,
                           soc := sock_Close (soc wc)\<rparr>)"
  using assms by (simp add: Close_def chan_recv_def chan_close_def)

lemma Close_again:
  assumes "chan_closed (closeRecvChan wc)" and "chan_buf (closeRecvChan wc) = []"
  shows "Close wc = Inr wc"
  using assms by (simp add: Close_def chan_recv_def)

lemma Close_Inr_cases:
  assumes "\<not> chan_closed (closeRecvChan wc)" and "chan_buf (closeRecvChan wc) = []"
    and "Close wc = Inr wc'"
  shows "wc' = wc\<lparr>closeRecvChan := (closeRecvChan wc)\<lparr>chan_closed := True\<rparr>,
                  Send := (Send wc)\<lparr>chan_closed := True\<rparr>,
                  soc := sock_Close (soc wc)\<rparr>"
  using assms by (auto simp add: Close_def chan_recv_def chan_close_def split: if_splits)

text \<open>
  Claim C10. The first call of \<open>Close\<close> (the shutdown channel is still open, and nothing
  is ever sent on it) leaves \<open>Send\<close> closed, so a later \<open>wc.Send <- v\<close> is the run-time
  panic \<open>send on closed channel\<close>: it neither waits nor enqueues the value. Further
  calls of \<open>Close\<close> change nothing, so this stays so.
\<close>

theorem C10_send_after_Close_panics:
  assumes "\<not> chan_closed (closeRecvChan wc)" and "chan_buf (closeRecvChan wc) = []"
    and "Close wc = Inr wc'"
  shows "chan_closed (Send wc')
       \<and> chan_send (Send wc') v = SendPanics (RuntimePanic ''send on closed channel'')
       \<and> Close wc' = Inr wc'"
proof -
  note eq = Close_Inr_cases [OF assms]
  have "chan_closed (Send wc')" by (simp add: eq)
  moreover from this
  have "chan_send (Send wc') v = SendPanics (RuntimePanic ''send on closed channel'')"
    by (simp add: chan_send_def)
  moreover have "Close wc' = Inr wc'"
    by (rule Close_again) (simp_all add: eq assms)
  ultimately show ?thesis by simp
qed

theorem C10_send_after_Close_panics_witness:
  "\<not> chan_closed (closeRecvChan ex_wc) \<and> chan_buf (closeRecvChan ex_wc) = []
   \<and> Close ex_wc =
       Inr (ex_wc\<lparr>closeRecvChan := \<lparr>chan_buf = [], chan_cap = 0, chan_closed = True\<rparr>,
                  Send := \<lparr>chan_buf = [], chan_cap = 2, chan_closed = True\<rparr>,
                  soc := ex_sock\<lparr>sock_closed := True, sock_closes := 1\<rparr>\<rparr>)
   \<and> chan_send
        (Send (ex_wc\<lparr>closeRecvChan := \<lparr>chan_buf = [], chan_cap = 0, chan_closed = True\<rparr>,
                     Send := \<lparr>chan_buf = [], chan_cap = 2, chan_closed = True\<rparr>,
                     soc := ex_sock\<lparr>sock_closed := True, sock_closes := 1\<rparr>\<rparr>))
        (VString ''late'')
       = SendPanics (RuntimePanic ''send on closed channel'')"
proof -
  have h1: "\<not> chan_closed (closeRecvChan ex_wc)" by (simp add: ex_wc_def)
  have h2: "chan_buf (closeRecvChan ex_wc) = []" by (simp add: ex_wc_def)
  have h3: "Close ex_wc =
       Inr (ex_wc\<lparr>closeRecvChan := \<lparr>chan_buf = [], chan_cap = 0, chan_closed = True\<rparr>,
                  Send := \<lparr>chan_buf = [], chan_cap = 2, chan_closed = True\<rparr>,
                  soc := ex_sock\<lparr>sock_closed := True, sock_closes := 1\<rparr>\<rparr>)"
    by (simp add: Close_def chan_recv_def chan_close_def sock_Close_def ex_wc_def ex_sock_def)
  from C10_send_after_Close_panics [OF h1 h2 h3, of "VString ''late''"] h1 h2 h3
  show ?thesis by simp
qed

subsection \<open>The error queue\<close>

lemma tryPushError_open:
  "\<not> chan_closed (Error wc) \<Longrightarrow>
     tryPushError wc e = Inr (wc\<lparr>Error := lossy_push (Error wc) e\<rparr>)"
  by (simp add: tryPushError_def chan_send_def lossy_push_def)

lemma lossy_push_closed [simp]: "chan_closed (lossy_push c x) = chan_closed c"
  by (simp add: lossy_push_def)

lemma lossy_push_cap [simp]: "chan_cap (lossy_push c x) = chan_cap c"
  by (simp add: lossy_push_def)

subsection \<open>Unfolding the loops\<close>

lemma send_routine_Continue:
  "send_iteration lib wc = Continue wc' \<Longrightarrow> send_routine lib wc = send_routine lib wc'"
  by (subst send_routine.simps) simp

lemma send_routine_Stop:
  "send_iteration lib wc = Stop st wc' \<Longrightarrow> send_routine lib wc = (st, wc')"
  by (subst send_routine.simps) simp

lemma recv_loop_Continue:
  "recv_iteration lib wc = Continue wc' \<Longrightarrow> recv_loop lib wc = recv_loop lib wc'"
  by (subst recv_loop.simps) simp

lemma recv_loop_Stop:
  "recv_iteration lib wc = Stop st wc' \<Longrightarrow> recv_loop lib wc = Some (st, wc')"
  by (subst recv_loop.simps) simp

subsection \<open>One pass of the send routine\<close>

lemma getAllowedTypeName_Send:
  "getAllowedTypeName lib (wc\<lparr>Send := c\<rparr>) data = getAllowedTypeName lib wc data"
  by (simp add: getAllowedTypeName_def)

lemma find_type_None:
  "(find (\<lambda>(k, v). v = t) xs = None) = (t \<notin> snd ` set xs)"
  by (induction xs) auto

lemma find_type_Some:
  "find (\<lambda>(k, v). v = t) xs = Some (k, v) \<Longrightarrow> (k, v) \<in> set xs \<and> v = t"
  by (induction xs) (auto split: if_splits)

lemma getAllowedTypeName_unregistered:
  assumes "TypeOf lib data \<notin> snd ` set (allowedTypes wc)"
  shows "getAllowedTypeName lib wc data = ('''', False)"
proof -
  have "find (\<lambda>(k, v). v = TypeOf lib data) (allowedTypes wc) = None"
    using assms by (simp add: find_type_None)
  then show ?thesis by (simp add: getAllowedTypeName_def)
qed

lemma getAllowedTypeName_True:
  "getAllowedTypeName lib wc data = (n, True) \<Longrightarrow>
     (n, TypeOf lib data) \<in> set (allowedTypes wc)"
  by (auto simp: getAllowedTypeName_def dest: find_type_Some split: option.splits)

lemma getAllowedTypeName_registered:
  assumes "TypeOf lib data \<in> snd ` set (allowedTypes wc)"
  shows "\<exists>n. getAllowedTypeName lib wc data = (n, True)"
proof (cases "find (\<lambda>(k, v). v = TypeOf lib data) (allowedTypes wc)")
  case None
  with assms show ?thesis by (simp add: find_type_None)
next
  case (Some kv)
  then show ?thesis
    by (cases kv) (simp add: getAllowedTypeName_def)
qed

lemma send_iteration_empty:
  "chan_buf (Send wc) = [] \<Longrightarrow>
     send_iteration lib wc =
       Stop (if chan_closed (Send wc) then Returned else BlockedOnSendChan) wc"
  by (simp add: send_iteration_def chan_recv_def)


lemma chan_recv_head:
  "chan_buf c = x # xs \<Longrightarrow> chan_recv c = (Received x, c\<lparr>chan_buf := xs\<rparr>)"
  by (simp add: chan_recv_def)

lemma send_iteration_unregistered:
  assumes "chan_buf (Send wc) = data # q"
    and "TypeOf lib data \<notin> snd ` set (allowedTypes wc)"
  shows "send_iteration lib wc =
           Stop (Panicked (PanicError (sendError
                   (ErrorString (''type not allowed: '' @ Sprintf_T lib data)))))
                (wc\<lparr>Send := (Send wc)\<lparr>chan_buf := q\<rparr>\<rparr>)"
proof -
  have g: "getAllowedTypeName lib (wc\<lparr>Send := (Send wc)\<lparr>chan_buf := q\<rparr>\<rparr>) data
             = ('''', False)"
    by (rule getAllowedTypeName_unregistered) (simp add: assms(2))
  have r: "chan_recv (Send wc) = (Received data, (Send wc)\<lparr>chan_buf := q\<rparr>)"
    using assms(1) by (rule chan_recv_head)
  show ?thesis
    unfolding send_iteration_def r
    by (simp only: prod.case recv_result.case Let_def g) simp
qed

lemma send_iteration_registered:
  assumes "chan_buf (Send wc) = data # q"
    and "getAllowedTypeName lib wc data = (n, True)"
    and "\<not> chan_closed (Error wc)"
  shows "send_iteration lib wc =
           Continue (case write_frame lib (soc wc) n data of
                       (None, s) \<Rightarrow> wc\<lparr>Send := (Send wc)\<lparr>chan_buf := q\<rparr>, soc := s\<rparr>
                     | (Some e, s) \<Rightarrow>
                         wc\<lparr>Send := (Send wc)\<lparr>chan_buf := q\<rparr>, soc := s,
                            Error := lossy_push (Error wc) (sendError e)\<rparr>)"
proof -
  have g: "getAllowedTypeName lib (wc\<lparr>Send := (Send wc)\<lparr>chan_buf := q\<rparr>\<rparr>) data = (n, True)"
    using assms(2) by (simp only: getAllowedTypeName_Send)
  have r: "chan_recv (Send wc) = (Received data, (Send wc)\<lparr>chan_buf := q\<rparr>)"
    using assms(1) by (rule chan_recv_head)
  obtain e1 s1 where w1: "Encode_string lib (soc wc) n = (e1, s1)"
    by (cases "Encode_string lib (soc wc) n")
  obtain e2 s2 where w2: "Encode lib s1 data = (e2, s2)"
    by (cases "Encode lib s1 data")
  show ?thesis
    unfolding send_iteration_def r
    apply (simp only: prod.case recv_result.case Let_def g)
    using assms(3)
    apply (cases e1; cases e2)
       apply (simp_all add: w1 w2 write_frame_def tryPushError_open)
    done
qed


subsection \<open>One pass of the receive routine\<close>

lemma after_read_simps [simp]:
  "sock_rd (after_read s ev rest) = rest"
  "sock_closed (after_read s ev rest) = sock_closed s"
  "after_read s (Item j) rest = s\<lparr>sock_rd := rest\<rparr>"
  "after_read s (Fault e) rest = s\<lparr>sock_rd := rest, dec_err := Some e\<rparr>"
  "after_read (s\<lparr>sock_rd := r\<rparr>) ev rest = after_read s ev rest"
  by (simp_all add: after_read_def split: rd_event.splits)

lemma read_name_Inr:
  "read_name lib ev = Inr n \<Longrightarrow> \<exists>j. ev = Item j"
  by (cases ev) (simp_all add: read_name_def)

lemma read_payload_Inr:
  "read_payload lib t ev = Inr v \<Longrightarrow> \<exists>j. ev = Item j"
  by (cases ev) (simp_all add: read_payload_def)

lemma dec_Read_next:
  assumes "\<not> sock_closed s" and "dec_err s = None" and "sock_rd s = ev # rest"
  shows "dec_Read s =
           (case ev of Item j \<Rightarrow> Decoded j | Fault e \<Rightarrow> DecodeError e, after_read s ev rest)"
  using assms by (simp add: dec_Read_def sock_Read_def split: rd_event.splits)

lemma dec_Read_wait:
  "\<not> sock_closed s \<Longrightarrow> dec_err s = None \<Longrightarrow> sock_rd s = [] \<Longrightarrow>
     dec_Read s = (DecodeBlocks, s)"
  by (simp add: dec_Read_def sock_Read_def)

lemma dec_Read_kept:
  "dec_err s = Some e \<Longrightarrow> dec_Read s = (DecodeError e, s)"
  by (simp add: dec_Read_def)

lemma Decode_string_next:
  assumes "\<not> sock_closed s" and "dec_err s = None" and "sock_rd s = ev # rest"
  shows "Decode_string lib s =
           (case read_name lib ev of Inl e \<Rightarrow> DecodeError e | Inr n \<Rightarrow> Decoded n,
            after_read s ev rest)"
  by (simp add: Decode_string_def dec_Read_next [OF assms] read_name_def
           split: rd_event.splits sum.splits)

lemma Decode_next:
  assumes "\<not> sock_closed s" and "dec_err s = None" and "sock_rd s = ev # rest"
  shows "Decode lib t s =
           (case read_payload lib t ev of Inl e \<Rightarrow> DecodeError e | Inr v \<Rightarrow> Decoded v,
            after_read s ev rest)"
  by (simp add: Decode_def dec_Read_next [OF assms] read_payload_def
           split: rd_event.splits sum.splits)

lemma Decode_string_wait:
  "\<not> sock_closed s \<Longrightarrow> dec_err s = None \<Longrightarrow> sock_rd s = [] \<Longrightarrow>
     Decode_string lib s = (DecodeBlocks, s)"
  by (simp add: Decode_string_def dec_Read_wait)

lemma Decode_wait:
  "\<not> sock_closed s \<Longrightarrow> dec_err s = None \<Longrightarrow> sock_rd s = [] \<Longrightarrow>
     Decode lib t s = (DecodeBlocks, s)"
  by (simp add: Decode_def dec_Read_wait)

lemma Decode_string_kept:
  "dec_err s = Some e \<Longrightarrow> Decode_string lib s = (DecodeError e, s)"
  by (simp add: Decode_string_def dec_Read_kept)

lemma recv_iteration_shutdown:
  "chan_closed (closeRecvChan wc) \<Longrightarrow> chan_buf (closeRecvChan wc) = [] \<Longrightarrow>
     recv_iteration lib wc = Stop Returned wc"
  by (simp add: recv_iteration_def chan_recv_def)

text \<open>A decoder that has kept an error: the pass gets that error and takes nothing.\<close>

lemma recv_iteration_kept:
  assumes "no_shutdown wc" and "\<not> chan_closed (Error wc)" and "dec_err (soc wc) = Some e"
  shows "recv_iteration lib wc =
           (if stream_closed e then Stop Returned wc
            else Continue (wc\<lparr>Error := lossy_push (Error wc) (recvError e)\<rparr>))"
  using assms
  by (simp add: recv_iteration_def chan_recv_def no_shutdown_def Decode_string_kept
                stream_closed_def tryPushError_open)

lemma recv_iteration_wait:
  assumes "no_shutdown wc" and "\<not> sock_closed (soc wc)" and "dec_err (soc wc) = None"
    and "sock_rd (soc wc) = []"
  shows "recv_iteration lib wc = Stop BlockedOnRead wc"
  using assms
  by (simp add: recv_iteration_def chan_recv_def no_shutdown_def Decode_string_wait)

lemma recv_iteration_name_error:
  assumes "no_shutdown wc" and "\<not> sock_closed (soc wc)" and "dec_err (soc wc) = None"
    and "\<not> chan_closed (Error wc)"
    and "sock_rd (soc wc) = ev # rest" and "read_name lib ev = Inl e"
  shows "recv_iteration lib wc =
           (if stream_closed e then Stop Returned (wc\<lparr>soc := after_read (soc wc) ev rest\<rparr>)
            else Continue (wc\<lparr>soc := after_read (soc wc) ev rest,
                              Error := lossy_push (Error wc) (recvError e)\<rparr>))"
  using assms
  by (simp add: recv_iteration_def chan_recv_def no_shutdown_def Decode_string_next
                stream_closed_def tryPushError_open)

lemma recv_iteration_unregistered:
  assumes "no_shutdown wc" and "\<not> sock_closed (soc wc)" and "dec_err (soc wc) = None"
    and "\<not> chan_closed (Error wc)"
    and "sock_rd (soc wc) = ev # rest" and "read_name lib ev = Inr n"
    and "map_of (allowedTypes wc) n = None"
  shows "recv_iteration lib wc =
           Continue (wc\<lparr>soc := (soc wc)\<lparr>sock_rd := rest\<rparr>,
                        Error := lossy_push (Error wc)
                                   (recvError (ErrorString (''type not allowed: '' @ n)))\<rparr>)"
proof -
  from read_name_Inr [OF assms(6)] obtain j where "ev = Item j" by blast
  with assms show ?thesis
    by (simp add: recv_iteration_def chan_recv_def no_shutdown_def Decode_string_next
                  createTypeInterfaceReflectPointer_def tryPushError_open)
qed

lemma recv_iteration_payload_wait:
  assumes "no_shutdown wc" and "\<not> sock_closed (soc wc)" and "dec_err (soc wc) = None"
    and "sock_rd (soc wc) = [ev]" and "read_name lib ev = Inr n"
    and "map_of (allowedTypes wc) n = Some t"
  shows "recv_iteration lib wc =
           Stop (BlockedOnPayload n) (wc\<lparr>soc := (soc wc)\<lparr>sock_rd := []\<rparr>\<rparr>)"
proof -
  from read_name_Inr [OF assms(5)] obtain j where "ev = Item j" by blast
  with assms show ?thesis
    by (simp add: recv_iteration_def chan_recv_def no_shutdown_def Decode_string_next
                  createTypeInterfaceReflectPointer_def Decode_wait)
qed

lemma recv_iteration_payload_error:
  assumes "no_shutdown wc" and "\<not> sock_closed (soc wc)" and "dec_err (soc wc) = None"
    and "\<not> chan_closed (Error wc)"
    and "sock_rd (soc wc) = ev # ev' # rest" and "read_name lib ev = Inr n"
    and "map_of (allowedTypes wc) n = Some t" and "read_payload lib t ev' = Inl e"
  shows "recv_iteration lib wc =
           (if stream_closed e then Stop Returned (wc\<lparr>soc := after_read (soc wc) ev' rest\<rparr>)
            else Continue (wc\<lparr>soc := after_read (soc wc) ev' rest,
                              Error := lossy_push (Error wc) (recvError e)\<rparr>))"
proof -
  from read_name_Inr [OF assms(6)] obtain j where "ev = Item j" by blast
  with assms show ?thesis
    by (simp add: recv_iteration_def chan_recv_def no_shutdown_def Decode_string_next
                  createTypeInterfaceReflectPointer_def Decode_next
                  stream_closed_def tryPushError_open)
qed

lemma recv_iteration_payload:
  assumes "no_shutdown wc" and "\<not> sock_closed (soc wc)" and "dec_err (soc wc) = None"
    and "sock_rd (soc wc) = ev # ev' # rest" and "read_name lib ev = Inr n"
    and "map_of (allowedTypes wc) n = Some t" and "read_payload lib t ev' = Inr v"
  shows "recv_iteration lib wc =
           (case chan_send (Recv wc) v of
              Sent c \<Rightarrow> Continue (wc\<lparr>soc := (soc wc)\<lparr>sock_rd := rest\<rparr>, Recv := c\<rparr>)
            | SendBlocks \<Rightarrow>
                Stop (BlockedOnRecvChan v) (wc\<lparr>soc := (soc wc)\<lparr>sock_rd := rest\<rparr>\<rparr>)
            | SendPanics p \<Rightarrow> Stop (Panicked p) (wc\<lparr>soc := (soc wc)\<lparr>sock_rd := rest\<rparr>\<rparr>))"
proof -
  from read_name_Inr [OF assms(5)] obtain j where "ev = Item j" by blast
  moreover from read_payload_Inr [OF assms(7)] obtain j' where "ev' = Item j'" by blast
  ultimately show ?thesis
    using assms
    by (simp add: recv_iteration_def chan_recv_def no_shutdown_def Decode_string_next
                  createTypeInterfaceReflectPointer_def Decode_next
             split: send_result.splits)
qed

subsection \<open>The passes of the receive routine, by what the stream holds\<close>

lemma chan_send_open:
  "\<not> chan_closed c \<Longrightarrow>
     chan_send c v = (if length (chan_buf c) < chan_cap c
                      then Sent (c\<lparr>chan_buf := chan_buf c @ [v]\<rparr>) else SendBlocks)"
  by (simp add: chan_send_def)

lemma recv_iteration_cases [consumes 1]:
  assumes "receiving wc"
  obtains
    (wait) "sock_rd (soc wc) = []"
      and "recv_iteration lib wc = Stop BlockedOnRead wc"
  | (name_closed) ev rest e where "sock_rd (soc wc) = ev # rest"
      and "read_name lib ev = Inl e" and "stream_closed e"
      and "recv_iteration lib wc = Stop Returned (wc\<lparr>soc := after_read (soc wc) ev rest\<rparr>)"
  | (name_error) ev rest e where "sock_rd (soc wc) = ev # rest"
      and "read_name lib ev = Inl e" and "\<not> stream_closed e"
      and "recv_iteration lib wc =
             Continue (wc\<lparr>soc := after_read (soc wc) ev rest,
                          Error := lossy_push (Error wc) (recvError e)\<rparr>)"
  | (unregistered) ev rest n where "sock_rd (soc wc) = ev # rest"
      and "read_name lib ev = Inr n" and "map_of (allowedTypes wc) n = None"
      and "recv_iteration lib wc =
             Continue (wc\<lparr>soc := (soc wc)\<lparr>sock_rd := rest\<rparr>,
                          Error := lossy_push (Error wc)
                                     (recvError (ErrorString (''type not allowed: '' @ n)))\<rparr>)"
  | (payload_wait) ev n t where "sock_rd (soc wc) = [ev]"
      and "read_name lib ev = Inr n" and "map_of (allowedTypes wc) n = Some t"
      and "recv_iteration lib wc =
             Stop (BlockedOnPayload n) (wc\<lparr>soc := (soc wc)\<lparr>sock_rd := []\<rparr>\<rparr>)"
  | (payload_closed) ev ev' rest n t e where "sock_rd (soc wc) = ev # ev' # rest"
      and "read_name lib ev = Inr n" and "map_of (allowedTypes wc) n = Some t"
      and "read_payload lib t ev' = Inl e" and "stream_closed e"
      and "recv_iteration lib wc = Stop Returned (wc\<lparr>soc := after_read (soc wc) ev' rest\<rparr>)"
  | (payload_error) ev ev' rest n t e where "sock_rd (soc wc) = ev # ev' # rest"
      and "read_name lib ev = Inr n" and "map_of (allowedTypes wc) n = Some t"
      and "read_payload lib t ev' = Inl e" and "\<not> stream_closed e"
      and "recv_iteration lib wc =
             Continue (wc\<lparr>soc := after_read (soc wc) ev' rest,
                          Error := lossy_push (Error wc) (recvError e)\<rparr>)"
  | (delivered) ev ev' rest n t v where "sock_rd (soc wc) = ev # ev' # rest"
      and "read_name lib ev = Inr n" and "map_of (allowedTypes wc) n = Some t"
      and "read_payload lib t ev' = Inr v"
      and "length (chan_buf (Recv wc)) < chan_cap (Recv wc)"
      and "recv_iteration lib wc =
             Continue (wc\<lparr>soc := (soc wc)\<lparr>sock_rd := rest\<rparr>,
                          Recv := (Recv wc)\<lparr>chan_buf := chan_buf (Recv wc) @ [v]\<rparr>\<rparr>)"
  | (recv_full) ev ev' rest n t v where "sock_rd (soc wc) = ev # ev' # rest"
      and "read_name lib ev = Inr n" and "map_of (allowedTypes wc) n = Some t"
      and "read_payload lib t ev' = Inr v"
      and "\<not> length (chan_buf (Recv wc)) < chan_cap (Recv wc)"
      and "recv_iteration lib wc =
             Stop (BlockedOnRecvChan v) (wc\<lparr>soc := (soc wc)\<lparr>sock_rd := rest\<rparr>\<rparr>)"
proof -
  from assms have ns: "no_shutdown wc" and so: "\<not> sock_closed (soc wc)"
    and de: "dec_err (soc wc) = None"
    and ro: "\<not> chan_closed (Recv wc)" and eo: "\<not> chan_closed (Error wc)"
    by (simp_all add: receiving_def)
  show thesis
  proof (cases "sock_rd (soc wc)")
    case Nil
    from Nil recv_iteration_wait [OF ns so de Nil, of lib] show thesis by (rule that(1))
  next
    case (Cons ev rest)
    show thesis
    proof (cases "read_name lib ev")
      case (Inl e)
      note step = recv_iteration_name_error [OF ns so de eo Cons Inl]
      show thesis
      proof (cases "stream_closed e")
        case True
        with step show thesis by (intro that(2) [OF Cons Inl]) simp_all
      next
        case False
        with step show thesis by (intro that(3) [OF Cons Inl]) simp_all
      qed
    next
      case (Inr n)
      show thesis
      proof (cases "map_of (allowedTypes wc) n")
        case None
        from recv_iteration_unregistered [OF ns so de eo Cons Inr None]
        show thesis by (rule that(4) [OF Cons Inr None])
      next
        case (Some t)
        show thesis
        proof (cases rest)
          case Nil
          with Cons have rd: "sock_rd (soc wc) = [ev]" by simp
          from recv_iteration_payload_wait [OF ns so de rd Inr Some]
          show thesis by (rule that(5) [OF rd Inr Some])
        next
          case (Cons ev' rest')
          with \<open>sock_rd (soc wc) = ev # rest\<close>
          have rd: "sock_rd (soc wc) = ev # ev' # rest'" by simp
          show thesis
          proof (cases "read_payload lib t ev'")
            case (Inl e)
            note step = recv_iteration_payload_error [OF ns so de eo rd Inr Some Inl]
            show thesis
            proof (cases "stream_closed e")
              case True
              with step show thesis by (intro that(6) [OF rd Inr Some Inl]) simp_all
            next
              case False
              with step show thesis by (intro that(7) [OF rd Inr Some Inl]) simp_all
            qed
          next
            case payload: (Inr v)
            note step = recv_iteration_payload [OF ns so de rd Inr Some payload]
            show thesis
            proof (cases "length (chan_buf (Recv wc)) < chan_cap (Recv wc)")
              case True
              with step ro show thesis
                by (intro that(8) [OF rd Inr Some payload]) (simp_all add: chan_send_open)
            next
              case False
              with step ro show thesis
                by (intro that(9) [OF rd Inr Some payload]) (simp_all add: chan_send_open)
            qed
          qed
        qed
      qed
    qed
  qed
qed

subsection \<open>The receive routine at the end of the stream\<close>

lemma items_end_Cons:
  assumes "map Item js @ [Fault e] = ev # rest"
  obtains "js = []" and "ev = Fault e" and "rest = []"
  | j js' where "js = j # js'" and "ev = Item j" and "rest = map Item js' @ [Fault e]"
  using assms by (cases js) auto

lemma read_name_Fault: "read_name lib (Fault e) = Inl e"
  by (simp add: read_name_def)

lemma read_payload_Fault: "read_payload lib t (Fault e) = Inl e"
  by (simp add: read_payload_def)

lemma receiving_soc_Error:
  "receiving wc \<Longrightarrow>
     receiving (wc\<lparr>soc := (soc wc)\<lparr>sock_rd := r\<rparr>, Error := lossy_push (Error wc) x\<rparr>)"
  by (simp add: receiving_def no_shutdown_def)

lemma receiving_soc:
  "receiving wc \<Longrightarrow> receiving (wc\<lparr>soc := (soc wc)\<lparr>sock_rd := r\<rparr>\<rparr>)"
  by (simp add: receiving_def no_shutdown_def)

lemma receiving_soc_Recv:
  "receiving wc \<Longrightarrow>
     receiving (wc\<lparr>soc := (soc wc)\<lparr>sock_rd := r\<rparr>, Recv := (Recv wc)\<lparr>chan_buf := b\<rparr>\<rparr>)"
  by (simp add: receiving_def no_shutdown_def)

text \<open>
  A stream of JSON texts that ends with a failure of the stream-closed class: the loop
  comes to an end. It returns with \<open>Recv\<close> still open, or it waits for room on
  \<open>Recv\<close> in a state of which the same premises hold, with less of the stream left.
\<close>

lemma recv_loop_stream_end:
  assumes "receiving wc" and "sock_rd (soc wc) = map Item js @ [Fault e]"
    and "stream_closed e"
  shows "case recv_loop lib wc of
           Some (Returned, wc') \<Rightarrow> \<not> chan_closed (Recv wc')
         | Some (BlockedOnRecvChan v, wc') \<Rightarrow>
             receiving wc' \<and> (\<exists>js'. sock_rd (soc wc') = map Item js' @ [Fault e])
             \<and> length (sock_rd (soc wc')) < length (sock_rd (soc wc))
         | _ \<Rightarrow> False"
  using assms
proof (induction "length js" arbitrary: wc js rule: less_induct)
  case less
  note rcv = \<open>receiving wc\<close> and rd = \<open>sock_rd (soc wc) = map Item js @ [Fault e]\<close>
    and cl = \<open>stream_closed e\<close>
  from rcv have ro: "\<not> chan_closed (Recv wc)" by (simp add: receiving_def)
  have smaller: "?case"
    if step: "recv_iteration lib wc = Continue wc'" and rcv': "receiving wc'"
      and rd': "sock_rd (soc wc') = map Item js' @ [Fault e]"
      and shorter: "length js' < length js"
    for wc' js'
  proof -
    note ih = less.hyps [OF shorter rcv' rd' cl]
    have "length (sock_rd (soc wc')) < length (sock_rd (soc wc))"
      using rd rd' shorter by simp
    with ih show ?thesis
      unfolding recv_loop_Continue [OF step]
      by (auto split: option.splits prod.splits status.splits)
  qed
  from rcv show ?case
  proof (cases rule: recv_iteration_cases [where lib = lib])
    case wait
    with rd show ?thesis by simp
  next
    case (name_closed ev rest e')
    then show ?thesis using ro by (simp add: recv_loop_Stop)
  next
    case (name_error ev rest e')
    from rd name_error(1) have "map Item js @ [Fault e] = ev # rest" by simp
    then show ?thesis
    proof (cases rule: items_end_Cons)
      case 1
      with name_error(2,3) cl show ?thesis by (simp add: read_name_Fault)
    next
      case (2 j js')
      show ?thesis
      proof (rule smaller [of _ js'])
        show "recv_iteration lib wc =
                Continue (wc\<lparr>soc := (soc wc)\<lparr>sock_rd := rest\<rparr>,
                              Error := lossy_push (Error wc) (recvError e')\<rparr>)"
          using name_error(4) 2 by simp
      qed (simp_all add: receiving_soc_Error [OF rcv] 2)
    qed
  next
    case (unregistered ev rest n)
    from rd unregistered(1) have "map Item js @ [Fault e] = ev # rest" by simp
    then show ?thesis
    proof (cases rule: items_end_Cons)
      case 1
      with unregistered(2) show ?thesis by (simp add: read_name_Fault)
    next
      case (2 j js')
      show ?thesis
        by (rule smaller [OF unregistered(4) receiving_soc_Error [OF rcv], of js'])
           (simp_all add: 2)
    qed
  next
    case (payload_wait ev n t)
    with rd have "map Item js @ [Fault e] = ev # []" by simp
    then have "ev = Fault e" by (cases rule: items_end_Cons) auto
    with payload_wait(2) show ?thesis by (simp add: read_name_Fault)
  next
    case (payload_closed ev ev' rest n t e')
    then show ?thesis using ro by (simp add: recv_loop_Stop)
  next
    case (payload_error ev ev' rest n t e')
    from rd payload_error(1) have "map Item js @ [Fault e] = ev # ev' # rest" by simp
    then obtain j js1 where js: "js = j # js1"
      and rest1: "map Item js1 @ [Fault e] = ev' # rest"
      using payload_error(2) by (cases rule: items_end_Cons) (auto simp: read_name_Fault)
    from rest1 show ?thesis
    proof (cases rule: items_end_Cons)
      case 1
      with payload_error(4,5) cl show ?thesis by (simp add: read_payload_Fault)
    next
      case (2 j' js')
      show ?thesis
      proof (rule smaller [of _ js'])
        show "recv_iteration lib wc =
                Continue (wc\<lparr>soc := (soc wc)\<lparr>sock_rd := rest\<rparr>,
                              Error := lossy_push (Error wc) (recvError e')\<rparr>)"
          using payload_error(6) 2 by simp
      qed (simp_all add: receiving_soc_Error [OF rcv] 2 js)
    qed
  next
    case (delivered ev ev' rest n t v)
    from rd delivered(1) have "map Item js @ [Fault e] = ev # ev' # rest" by simp
    then obtain j js1 where js: "js = j # js1"
      and rest1: "map Item js1 @ [Fault e] = ev' # rest"
      using delivered(2) by (cases rule: items_end_Cons) (auto simp: read_name_Fault)
    from rest1 show ?thesis
    proof (cases rule: items_end_Cons)
      case 1
      with delivered(4) show ?thesis by (simp add: read_payload_Fault)
    next
      case (2 j' js')
      show ?thesis
        by (rule smaller [OF delivered(6) receiving_soc_Recv [OF rcv], of js'])
           (simp_all add: 2 js)
    qed
  next
    case (recv_full ev ev' rest n t v)
    from rd recv_full(1) have "map Item js @ [Fault e] = ev # ev' # rest" by simp
    then obtain j js1 where js: "js = j # js1"
      and rest1: "map Item js1 @ [Fault e] = ev' # rest"
      using recv_full(2) by (cases rule: items_end_Cons) (auto simp: read_name_Fault)
    from rest1 show ?thesis
    proof (cases rule: items_end_Cons)
      case 1
      with recv_full(4) show ?thesis by (simp add: read_payload_Fault)
    next
      case (2 j' js')
      have "recv_loop lib wc =
              Some (BlockedOnRecvChan v, wc\<lparr>soc := (soc wc)\<lparr>sock_rd := rest\<rparr>\<rparr>)"
        by (rule recv_loop_Stop [OF recv_full(6)])
      then show ?thesis
        using receiving_soc [OF rcv, of rest] 2 recv_full(1) by auto
    qed
  qed
qed

subsection \<open>The routines go on after an error\<close>

lemma closes_stream_name:
  "read_name lib ev = Inl e \<Longrightarrow> stream_closed e \<Longrightarrow> closes_stream lib reg ev"
  by (auto simp: read_name_def closes_stream_def split: rd_event.splits)

lemma closes_stream_payload:
  assumes "read_payload lib t ev = Inl e" and "stream_closed e" and "map_of reg n = Some t"
  shows "closes_stream lib reg ev"
proof -
  from assms(3) have t: "t \<in> snd ` set reg" by (force dest: map_of_SomeD)
  show ?thesis
  proof (cases ev)
    case (Fault e')
    with assms(1,2) show ?thesis by (simp add: read_payload_def closes_stream_def)
  next
    case (Item j)
    with assms(1) have "Unmarshal lib t j = Inl e" by (simp add: read_payload_def)
    with assms(2)
    have "case Unmarshal lib t j of Inl e \<Rightarrow> stream_closed e | Inr v \<Rightarrow> False"
      by simp
    with t have "\<exists>t \<in> snd ` set reg.
                  case Unmarshal lib t j of Inl e \<Rightarrow> stream_closed e | Inr v \<Rightarrow> False"
      by (rule bexI [rotated])
    with Item show ?thesis by (simp add: closes_stream_def)
  qed
qed

lemma undisturbed_receiving:
  "receiving wc \<Longrightarrow>
     \<forall>ev \<in> set (sock_rd (soc wc)). \<not> closes_stream lib (allowedTypes wc) ev \<Longrightarrow>
     undisturbed lib wc"
  by (simp add: undisturbed_def receiving_def)

lemma undisturbed_cases:
  assumes "undisturbed lib wc"
  obtains (kept) e where "dec_err (soc wc) = Some e" and "\<not> stream_closed e"
      and "no_shutdown wc" and "\<not> chan_closed (Error wc)"
  | (fresh) "receiving wc"
  using assms by (cases "dec_err (soc wc)") (auto simp: undisturbed_def receiving_def)

lemma undisturbed_after_error:
  assumes "undisturbed lib wc" and "sock_rd (soc wc) = pre @ ev # rest"
  shows "undisturbed lib (wc\<lparr>soc := after_read (soc wc) ev rest,
                             Error := lossy_push (Error wc) x\<rparr>)"
proof (cases ev)
  case (Item j)
  with assms show ?thesis by (auto simp: undisturbed_def no_shutdown_def)
next
  case (Fault e)
  with assms have "\<not> closes_stream lib (allowedTypes wc) (Fault e)"
    by (simp add: undisturbed_def)
  then have "\<not> stream_closed e" by (simp add: closes_stream_def)
  with assms Fault show ?thesis by (auto simp: undisturbed_def no_shutdown_def)
qed

lemma undisturbed_after_items:
  assumes "undisturbed lib wc" and "sock_rd (soc wc) = pre @ rest"
  shows "undisturbed lib (wc\<lparr>soc := (soc wc)\<lparr>sock_rd := rest\<rparr>,
                             Error := lossy_push (Error wc) x\<rparr>)"
    and "undisturbed lib (wc\<lparr>soc := (soc wc)\<lparr>sock_rd := rest\<rparr>,
                             Recv := (Recv wc)\<lparr>chan_buf := b\<rparr>\<rparr>)"
  using assms by (auto simp: undisturbed_def no_shutdown_def)

text \<open>A pass of an undisturbed routine continues undisturbed, or stops to wait.\<close>

lemma undisturbed_pass:
  assumes "undisturbed lib wc"
  shows "case recv_iteration lib wc of
           Continue wc' \<Rightarrow> undisturbed lib wc'
         | Stop st wc' \<Rightarrow> waits st"
  using assms
proof (cases rule: undisturbed_cases)
  case (kept e)
  from recv_iteration_kept [OF kept(3,4,1), of lib] kept(2) assms
  show ?thesis by (simp add: undisturbed_def no_shutdown_def)
next
  case fresh
  from assms have quiet: "\<forall>ev \<in> set (sock_rd (soc wc)). \<not> closes_stream lib (allowedTypes wc) ev"
    by (simp add: undisturbed_def)
  from fresh have de: "dec_err (soc wc) = None" by (simp add: receiving_def)
  from fresh show ?thesis
  proof (cases rule: recv_iteration_cases [where lib = lib])
    case wait
    then show ?thesis by (simp add: waits_def)
  next
    case (name_closed ev rest e)
    from closes_stream_name [OF name_closed(2,3)] quiet name_closed(1)
    show ?thesis by simp
  next
    case (name_error ev rest e)
    from undisturbed_after_error [OF assms, of "[]" ev rest] name_error(1,4)
    show ?thesis by simp
  next
    case (unregistered ev rest n)
    from undisturbed_after_items(1) [OF assms, of "[ev]" rest] unregistered(1,4)
    show ?thesis by simp
  next
    case (payload_wait ev n t)
    then show ?thesis by (simp add: waits_def)
  next
    case (payload_closed ev ev' rest n t e)
    from closes_stream_payload [OF payload_closed(4,5,3)] quiet payload_closed(1)
    show ?thesis by simp
  next
    case (payload_error ev ev' rest n t e)
    from undisturbed_after_error [OF assms, of "[ev]" ev' rest] payload_error(1,6)
    show ?thesis by simp
  next
    case (delivered ev ev' rest n t v)
    from undisturbed_after_items(2) [OF assms, of "[ev, ev']" rest] delivered(1,6)
    show ?thesis by simp
  next
    case (recv_full ev ev' rest n t v)
    then show ?thesis by (simp add: waits_def)
  qed
qed

text \<open>If the loop of an undisturbed routine comes to an end at all, the routine waits.\<close>

lemma recv_loop_never_returns_aux:
  assumes "recv_loop lib wc = Some y"
  shows "undisturbed lib wc \<longrightarrow> waits (fst y)"
proof (rule recv_loop.raw_induct
         [where P = "\<lambda>lib wc y. undisturbed lib wc \<longrightarrow> waits (fst y)", OF _ assms])
  fix loop :: "('a, 'b, 'c) golib \<Rightarrow> ('a, 'b, 'c) WebChan
                 \<Rightarrow> ('a status \<times> ('a, 'b, 'c) WebChan) option"
    and lib wc y
  assume ih: "\<And>lib wc y. loop lib wc = Some y \<Longrightarrow> undisturbed lib wc \<longrightarrow> waits (fst y)"
    and body: "(case recv_iteration lib wc of
                  Continue wc' \<Rightarrow> loop lib wc'
                | Stop st wc' \<Rightarrow> Some (st, wc')) = Some y"
  show "undisturbed lib wc \<longrightarrow> waits (fst y)"
  proof
    assume u: "undisturbed lib wc"
    show "waits (fst y)"
    proof (cases "recv_iteration lib wc")
      case (Continue w)
      with undisturbed_pass [OF u] have "undisturbed lib w" by simp
      moreover from body Continue have "loop lib w = Some y" by simp
      ultimately show ?thesis using ih by blast
    next
      case (Stop st' w)
      with undisturbed_pass [OF u] body show ?thesis by auto
    qed
  qed
qed

lemma recv_loop_never_returns:
  assumes "recv_loop lib wc = Some (st, wc')" and "undisturbed lib wc"
  shows "waits st"
  using recv_loop_never_returns_aux [OF assms(1)] assms(2) by simp

text \<open>
  Once the decoder has kept an error outside the stream-closed class, the loop does not
  come to an end: every pass offers the error to the error queue and continues.
\<close>

lemma recv_loop_spins_aux:
  assumes "recv_loop lib wc = Some y"
  shows "no_shutdown wc \<and> \<not> chan_closed (Error wc)
           \<and> (\<exists>e. dec_err (soc wc) = Some e \<and> \<not> stream_closed e) \<longrightarrow> False"
proof (rule recv_loop.raw_induct
         [where P = "\<lambda>lib wc y. no_shutdown wc \<and> \<not> chan_closed (Error wc)
           \<and> (\<exists>e. dec_err (soc wc) = Some e \<and> \<not> stream_closed e) \<longrightarrow> False", OF _ assms])
  fix loop :: "('a, 'b, 'c) golib \<Rightarrow> ('a, 'b, 'c) WebChan
                 \<Rightarrow> ('a status \<times> ('a, 'b, 'c) WebChan) option"
    and lib wc y
  assume ih: "\<And>lib wc y. loop lib wc = Some y \<Longrightarrow>
                no_shutdown wc \<and> \<not> chan_closed (Error wc)
                  \<and> (\<exists>e. dec_err (soc wc) = Some e \<and> \<not> stream_closed e) \<longrightarrow> False"
    and body: "(case recv_iteration lib wc of
                  Continue wc' \<Rightarrow> loop lib wc'
                | Stop st wc' \<Rightarrow> Some (st, wc')) = Some y"
  show "no_shutdown wc \<and> \<not> chan_closed (Error wc)
          \<and> (\<exists>e. dec_err (soc wc) = Some e \<and> \<not> stream_closed e) \<longrightarrow> False"
  proof
    assume a: "no_shutdown wc \<and> \<not> chan_closed (Error wc)
       \<and> (\<exists>e. dec_err (soc wc) = Some e \<and> \<not> stream_closed e)"
    then obtain e where e: "dec_err (soc wc) = Some e" "\<not> stream_closed e" by blast
    from a e have step: "recv_iteration lib wc =
                       Continue (wc\<lparr>Error := lossy_push (Error wc) (recvError e)\<rparr>)"
      using recv_iteration_kept [of wc e lib] by simp
    with body have "loop lib (wc\<lparr>Error := lossy_push (Error wc) (recvError e)\<rparr>) = Some y"
      by simp
    from ih [OF this] a show False by (simp add: no_shutdown_def)
  qed
qed

lemma recv_loop_spins:
  assumes "no_shutdown wc" and "\<not> chan_closed (Error wc)"
    and "dec_err (soc wc) = Some e" and "\<not> stream_closed e"
  shows "recv_loop lib wc = None"
proof (cases "recv_loop lib wc")
  case None
  then show ?thesis .
next
  case (Some y)
  from recv_loop_spins_aux [OF this] assms show ?thesis by blast
qed

text \<open>
  A stream of JSON texts, none of which closes the stream: the loop reads on after every
  error of the decoder and comes to a wait.
\<close>

lemma recv_loop_items_wait:
  assumes "receiving wc" and "sock_rd (soc wc) = map Item js"
    and "\<forall>ev \<in> set (sock_rd (soc wc)). \<not> closes_stream lib (allowedTypes wc) ev"
  shows "\<exists>st wc'. recv_loop lib wc = Some (st, wc') \<and> waits st"
  using assms
proof (induction "length js" arbitrary: wc js rule: less_induct)
  case less
  note rcv = less.prems(1) and rd = less.prems(2) and quiet = less.prems(3)
  have smaller: "?case"
    if step: "recv_iteration lib wc = Continue wc'" and rcv': "receiving wc'"
      and rd': "sock_rd (soc wc') = map Item js'"
      and shorter: "length js' < length js"
      and reg: "allowedTypes wc' = allowedTypes wc"
      and sub: "set js' \<subseteq> set js"
    for wc' js'
  proof -
    have "\<forall>ev \<in> set (sock_rd (soc wc')). \<not> closes_stream lib (allowedTypes wc') ev"
      using quiet rd rd' sub reg by auto
    from less.hyps [OF shorter rcv' rd' this] show ?thesis
      by (simp add: recv_loop_Continue [OF step])
  qed
  from rcv show ?case
  proof (cases rule: recv_iteration_cases [where lib = lib])
    case wait
    then show ?thesis by (simp add: recv_loop_Stop waits_def)
  next
    case (name_closed ev rest e)
    from closes_stream_name [OF name_closed(2,3)] quiet name_closed(1)
    show ?thesis by simp
  next
    case (name_error ev rest e)
    with rd obtain j js' where js: "js = j # js'" and ev: "ev = Item j"
      and rest: "rest = map Item js'" by (cases js) auto
    show ?thesis
    proof (rule smaller [of _ js'])
      show "recv_iteration lib wc =
              Continue (wc\<lparr>soc := (soc wc)\<lparr>sock_rd := rest\<rparr>,
                            Error := lossy_push (Error wc) (recvError e)\<rparr>)"
        using name_error(4) ev by simp
    qed (auto simp: receiving_soc_Error [OF rcv] js rest)
  next
    case (unregistered ev rest n)
    with rd obtain j js' where js: "js = j # js'" and rest: "rest = map Item js'"
      by (cases js) auto
    show ?thesis
      by (rule smaller [OF unregistered(4) receiving_soc_Error [OF rcv], of js'])
         (auto simp: js rest)
  next
    case (payload_wait ev n t)
    then show ?thesis by (simp add: recv_loop_Stop waits_def)
  next
    case (payload_closed ev ev' rest n t e)
    from closes_stream_payload [OF payload_closed(4,5,3)] quiet payload_closed(1)
    show ?thesis by simp
  next
    case (payload_error ev ev' rest n t e)
    with rd obtain j j' js' where js: "js = j # j' # js'" and ev': "ev' = Item j'"
      and rest: "rest = map Item js'"
      by (cases js; cases "tl js") auto
    show ?thesis
    proof (rule smaller [of _ js'])
      show "recv_iteration lib wc =
              Continue (wc\<lparr>soc := (soc wc)\<lparr>sock_rd := rest\<rparr>,
                            Error := lossy_push (Error wc) (recvError e)\<rparr>)"
        using payload_error(6) ev' by simp
    qed (auto simp: receiving_soc_Error [OF rcv] js rest)
  next
    case (delivered ev ev' rest n t v)
    with rd obtain j j' js' where js: "js = j # j' # js'" and rest: "rest = map Item js'"
      by (cases js; cases "tl js") auto
    show ?thesis
      by (rule smaller [OF delivered(6) receiving_soc_Recv [OF rcv], of js'])
         (auto simp: js rest)
  next
    case (recv_full ev ev' rest n t v)
    then show ?thesis by (simp add: recv_loop_Stop waits_def)
  qed
qed

lemma recv_routine_waits:
  "recv_loop lib wc = Some (st, wc') \<Longrightarrow> waits st \<Longrightarrow>
     recv_routine lib wc = Some (st, wc')"
  by (auto simp: recv_routine_def waits_def split: status.splits)

lemma recv_routine_None:
  "recv_loop lib wc = None \<Longrightarrow> recv_routine lib wc = None"
  by (simp add: recv_routine_def)

lemma recv_routine_Some:
  "recv_routine lib wc = Some (st, wc') \<Longrightarrow>
     \<exists>st' wc''. recv_loop lib wc = Some (st', wc'') \<and> (waits st' \<longrightarrow> st = st')"
  by (auto simp: recv_routine_def waits_def deferred_close_def
           split: option.splits prod.splits status.splits sum.splits)

lemma send_iteration_registered_props:
  assumes "chan_buf (Send wc) = data # q"
    and "TypeOf lib data \<in> snd ` set (allowedTypes wc)"
    and "\<not> chan_closed (Error wc)"
  obtains wc' where "send_iteration lib wc = Continue wc'"
    and "Send wc' = (Send wc)\<lparr>chan_buf := q\<rparr>"
    and "allowedTypes wc' = allowedTypes wc"
    and "\<not> chan_closed (Error wc')"
proof -
  from getAllowedTypeName_registered [OF assms(2)]
  obtain n where n: "getAllowedTypeName lib wc data = (n, True)" by blast
  note step = send_iteration_registered [OF assms(1) n assms(3)]
  obtain err s where w: "write_frame lib (soc wc) n data = (err, s)"
    by (cases "write_frame lib (soc wc) n data")
  show thesis
  proof (cases err)
    case None
    with step w show thesis by (intro that [of "wc\<lparr>Send := (Send wc)\<lparr>chan_buf := q\<rparr>, soc := s\<rparr>"])
      (simp_all add: assms(3))
  next
    case (Some e)
    with step w show thesis
      by (intro that [of "wc\<lparr>Send := (Send wc)\<lparr>chan_buf := q\<rparr>, soc := s,
                            Error := lossy_push (Error wc) (sendError e)\<rparr>"])
         (simp_all add: assms(3))
  qed
qed

lemma send_routine_goes_on:
  assumes "\<forall>v \<in> set (chan_buf (Send wc)). TypeOf lib v \<in> snd ` set (allowedTypes wc)"
    and "\<not> chan_closed (Error wc)"
  shows "fst (send_routine lib wc)
           = (if chan_closed (Send wc) then Returned else BlockedOnSendChan)
       \<and> chan_buf (Send (snd (send_routine lib wc))) = []"
  using assms
proof (induction "chan_buf (Send wc)" arbitrary: wc)
  case Nil
  from Nil(1) [symmetric] show ?case
    by (simp add: send_routine_Stop [OF send_iteration_empty])
next
  case (Cons data q)
  from Cons(2) [symmetric] Cons(3)
  have head: "chan_buf (Send wc) = data # q"
    and reg: "TypeOf lib data \<in> snd ` set (allowedTypes wc)"
    by simp_all
  from send_iteration_registered_props [OF head reg Cons(4)]
  obtain wc' where step: "send_iteration lib wc = Continue wc'"
    and snd': "Send wc' = (Send wc)\<lparr>chan_buf := q\<rparr>"
    and reg': "allowedTypes wc' = allowedTypes wc"
    and err': "\<not> chan_closed (Error wc')"
    by blast
  have "q = chan_buf (Send wc')" by (simp add: snd')
  moreover have "\<forall>v \<in> set (chan_buf (Send wc')). TypeOf lib v \<in> snd ` set (allowedTypes wc')"
    using Cons(3) head by (simp add: snd' reg')
  ultimately have "fst (send_routine lib wc')
           = (if chan_closed (Send wc') then Returned else BlockedOnSendChan)
       \<and> chan_buf (Send (snd (send_routine lib wc'))) = []"
    using err' by (rule Cons(1))
  then show ?case
    by (simp add: send_routine_Continue [OF step] snd')
qed

subsection \<open>Order on the wire and in the queue\<close>

lemma sock_Write_through:
  "\<not> sock_closed s \<Longrightarrow> sock_wfaults s = [] \<Longrightarrow>
     sock_Write s j = (None, s\<lparr>sock_wire := sock_wire s @ [j]\<rparr>)"
  by (simp add: sock_Write_def)

lemma enc_Write_through:
  "\<not> sock_closed s \<Longrightarrow> sock_wfaults s = [] \<Longrightarrow>
     enc_Write s j = (None, s\<lparr>sock_wire := sock_wire s @ [j]\<rparr>)"
  by (simp add: enc_Write_def sock_Write_through)

lemma write_frame_through:
  assumes "\<not> sock_closed s" and "sock_wfaults s = []" and "enc_err s = None"
  shows "write_frame lib s n data =
           (case Marshal lib data of
              Inl e \<Rightarrow> (Some e, s\<lparr>sock_wire := sock_wire s @ [MarshalString lib n]\<rparr>)
            | Inr j \<Rightarrow> (None, s\<lparr>sock_wire := sock_wire s @ [MarshalString lib n, j]\<rparr>))"
  using assms
  by (simp add: write_frame_def Encode_string_def Encode_def enc_Write_through
           split: sum.splits)

lemma frame_items_registry:
  "allowedTypes wc' = allowedTypes wc \<Longrightarrow> frame_items lib wc' v = frame_items lib wc v"
  by (simp add: frame_items_def getAllowedTypeName_def)

lemma send_iteration_through:
  assumes "chan_buf (Send wc) = data # q"
    and "TypeOf lib data \<in> snd ` set (allowedTypes wc)"
    and "\<not> chan_closed (Error wc)"
    and "\<not> sock_closed (soc wc)" and "sock_wfaults (soc wc) = []"
    and "enc_err (soc wc) = None"
  obtains wc' where "send_iteration lib wc = Continue wc'"
    and "Send wc' = (Send wc)\<lparr>chan_buf := q\<rparr>"
    and "allowedTypes wc' = allowedTypes wc"
    and "\<not> chan_closed (Error wc')"
    and "\<not> sock_closed (soc wc')" and "sock_wfaults (soc wc') = []"
    and "enc_err (soc wc') = None"
    and "sock_wire (soc wc') = sock_wire (soc wc) @ frame_items lib wc data"
proof -
  from getAllowedTypeName_registered [OF assms(2)]
  obtain n where n: "getAllowedTypeName lib wc data = (n, True)" by blast
  note step = send_iteration_registered [OF assms(1) n assms(3)]
  note w = write_frame_through [OF assms(4,5,6), of lib n data]
  show thesis
  proof (cases "Marshal lib data")
    case (Inl e)
    with step w show thesis
      by (intro that [of "wc\<lparr>Send := (Send wc)\<lparr>chan_buf := q\<rparr>,
                            soc := (soc wc)\<lparr>sock_wire := sock_wire (soc wc) @ [MarshalString lib n]\<rparr>,
                            Error := lossy_push (Error wc) (sendError e)\<rparr>"])
         (simp_all add: assms(3,4,5,6) frame_items_def n)
  next
    case (Inr j)
    with step w show thesis
      by (intro that [of "wc\<lparr>Send := (Send wc)\<lparr>chan_buf := q\<rparr>,
                            soc := (soc wc)\<lparr>sock_wire := sock_wire (soc wc) @ [MarshalString lib n, j]\<rparr>\<rparr>"])
         (simp_all add: assms(3,4,5,6) frame_items_def n)
  qed
qed

lemma send_routine_wire:
  assumes "\<forall>v \<in> set (chan_buf (Send wc)). TypeOf lib v \<in> snd ` set (allowedTypes wc)"
    and "\<not> chan_closed (Error wc)"
    and "\<not> sock_closed (soc wc)" and "sock_wfaults (soc wc) = []"
    and "enc_err (soc wc) = None"
  shows "sock_wire (soc (snd (send_routine lib wc)))
           = sock_wire (soc wc) @ concat (map (frame_items lib wc) (chan_buf (Send wc)))"
  using assms
proof (induction "chan_buf (Send wc)" arbitrary: wc)
  case Nil
  from Nil(1) [symmetric] show ?case
    by (simp add: send_routine_Stop [OF send_iteration_empty])
next
  case (Cons data q)
  from Cons(2) [symmetric] Cons(3)
  have head: "chan_buf (Send wc) = data # q"
    and reg: "TypeOf lib data \<in> snd ` set (allowedTypes wc)"
    by simp_all
  from send_iteration_through [OF head reg Cons(4,5,6,7)]
  obtain wc' where step: "send_iteration lib wc = Continue wc'"
    and snd': "Send wc' = (Send wc)\<lparr>chan_buf := q\<rparr>"
    and reg': "allowedTypes wc' = allowedTypes wc"
    and err': "\<not> chan_closed (Error wc')"
    and open': "\<not> sock_closed (soc wc')" and faults': "sock_wfaults (soc wc') = []"
    and fresh': "enc_err (soc wc') = None"
    and wire': "sock_wire (soc wc') = sock_wire (soc wc) @ frame_items lib wc data"
    by blast
  have q: "q = chan_buf (Send wc')" by (simp add: snd')
  have "\<forall>v \<in> set (chan_buf (Send wc')). TypeOf lib v \<in> snd ` set (allowedTypes wc')"
    using Cons(3) head by (simp add: snd' reg')
  with q have "sock_wire (soc (snd (send_routine lib wc')))
           = sock_wire (soc wc') @ concat (map (frame_items lib wc') (chan_buf (Send wc')))"
    using err' open' faults' fresh' by (rule Cons(1))
  moreover have "map (frame_items lib wc') q = map (frame_items lib wc) q"
    by (simp add: frame_items_registry [OF reg'])
  ultimately show ?case
    by (simp add: send_routine_Continue [OF step] snd' wire' head)
qed

lemma decodes_to_reads:
  assumes "decodes_to lib wc (jn, jp, v)"
  obtains n t where "read_name lib (Item jn) = Inr n"
    and "map_of (allowedTypes wc) n = Some t"
    and "read_payload lib t (Item jp) = Inr v"
  using assms
  by (auto simp: decodes_to_def read_name_def read_payload_def
           split: sum.splits option.splits)

lemma decodes_to_registry:
  assumes "allowedTypes wc' = allowedTypes wc"
  shows "decodes_to lib wc' f = decodes_to lib wc f"
  unfolding decodes_to_def assms ..

lemma recv_loop_frames_fit:
  assumes "receiving wc"
    and "\<forall>f \<in> set fs. decodes_to lib wc f"
    and "sock_rd (soc wc) = frame_events fs @ rest"
    and "length (chan_buf (Recv wc)) + length fs \<le> chan_cap (Recv wc)"
  shows "recv_loop lib wc =
           recv_loop lib (wc\<lparr>soc := (soc wc)\<lparr>sock_rd := rest\<rparr>,
                             Recv := (Recv wc)\<lparr>chan_buf := chan_buf (Recv wc) @ frame_values fs\<rparr>\<rparr>)"
  using assms
proof (induction fs arbitrary: wc)
  case Nil
  then have "rest = sock_rd (soc wc)" by (simp add: frame_events_def)
  then show ?case by (simp add: frame_values_def)
next
  case (Cons f fs)
  obtain jn jp v where f: "f = (jn, jp, v)" by (cases f)
  from Cons.prems(1) have ns: "no_shutdown wc" and so: "\<not> sock_closed (soc wc)"
    and de: "dec_err (soc wc) = None" and ro: "\<not> chan_closed (Recv wc)"
    by (simp_all add: receiving_def)
  from Cons.prems(2) f have "decodes_to lib wc (jn, jp, v)" by simp
  then obtain n t where nm: "read_name lib (Item jn) = Inr n"
    and ty: "map_of (allowedTypes wc) n = Some t"
    and pl: "read_payload lib t (Item jp) = Inr v"
    by (rule decodes_to_reads)
  have rd: "sock_rd (soc wc) = Item jn # Item jp # (frame_events fs @ rest)"
    using Cons.prems(3) f by (simp add: frame_events_def)
  from Cons.prems(4) have room: "length (chan_buf (Recv wc)) < chan_cap (Recv wc)" by simp
  let ?wc' = "wc\<lparr>soc := (soc wc)\<lparr>sock_rd := frame_events fs @ rest\<rparr>,
                  Recv := (Recv wc)\<lparr>chan_buf := chan_buf (Recv wc) @ [v]\<rparr>\<rparr>"
  have step: "recv_iteration lib wc = Continue ?wc'"
    using recv_iteration_payload [OF ns so de rd nm ty pl] ro room
    by (simp add: chan_send_open)
  have "recv_loop lib ?wc' =
           recv_loop lib (?wc'\<lparr>soc := (soc ?wc')\<lparr>sock_rd := rest\<rparr>,
                             Recv := (Recv ?wc')\<lparr>chan_buf := chan_buf (Recv ?wc') @ frame_values fs\<rparr>\<rparr>)"
  proof (rule Cons.IH)
    show "receiving ?wc'" by (rule receiving_soc_Recv [OF Cons.prems(1)])
    show "\<forall>f \<in> set fs. decodes_to lib ?wc' f"
      using Cons.prems(2) by (simp add: decodes_to_registry [of ?wc' wc])
    show "sock_rd (soc ?wc') = frame_events fs @ rest" by simp
    show "length (chan_buf (Recv ?wc')) + length fs \<le> chan_cap (Recv ?wc')"
      using Cons.prems(4) by simp
  qed
  then show ?case
    by (simp add: recv_loop_Continue [OF step] frame_values_def f)
qed

lemma recv_loop_frames_full:
  assumes "receiving wc"
    and "\<forall>f \<in> set (pre @ (jn, jp, v) # post). decodes_to lib wc f"
    and "sock_rd (soc wc) = frame_events (pre @ (jn, jp, v) # post) @ rest"
    and "length (chan_buf (Recv wc)) + length pre = chan_cap (Recv wc)"
  shows "recv_loop lib wc =
           Some (BlockedOnRecvChan v,
            wc\<lparr>soc := (soc wc)\<lparr>sock_rd := frame_events post @ rest\<rparr>,
               Recv := (Recv wc)\<lparr>chan_buf := chan_buf (Recv wc) @ frame_values pre\<rparr>\<rparr>)"
proof -
  let ?mid = "wc\<lparr>soc := (soc wc)\<lparr>sock_rd := frame_events ((jn, jp, v) # post) @ rest\<rparr>,
                  Recv := (Recv wc)\<lparr>chan_buf := chan_buf (Recv wc) @ frame_values pre\<rparr>\<rparr>"
  have "recv_loop lib wc = recv_loop lib ?mid"
  proof (rule recv_loop_frames_fit [OF assms(1)])
    show "\<forall>f \<in> set pre. decodes_to lib wc f" using assms(2) by simp
    show "sock_rd (soc wc) = frame_events pre @ frame_events ((jn, jp, v) # post) @ rest"
      using assms(3) by (simp add: frame_events_def)
    show "length (chan_buf (Recv wc)) + length pre \<le> chan_cap (Recv wc)"
      using assms(4) by simp
  qed
  moreover have "recv_loop lib ?mid =
           Some (BlockedOnRecvChan v, ?mid\<lparr>soc := (soc ?mid)\<lparr>sock_rd := frame_events post @ rest\<rparr>\<rparr>)"
  proof (rule recv_loop_Stop)
    have rcv: "receiving ?mid" by (rule receiving_soc_Recv [OF assms(1)])
    then have ns: "no_shutdown ?mid" and so: "\<not> sock_closed (soc ?mid)"
      and de: "dec_err (soc ?mid) = None" and ro: "\<not> chan_closed (Recv ?mid)"
      by (simp_all add: receiving_def)
    from assms(2) have "decodes_to lib wc (jn, jp, v)" by simp
    then have "decodes_to lib ?mid (jn, jp, v)" by (simp add: decodes_to_registry [of ?mid wc])
    then obtain n t where nm: "read_name lib (Item jn) = Inr n"
      and ty: "map_of (allowedTypes ?mid) n = Some t"
      and pl: "read_payload lib t (Item jp) = Inr v"
      by (rule decodes_to_reads)
    have rd: "sock_rd (soc ?mid) = Item jn # Item jp # (frame_events post @ rest)"
      by (simp add: frame_events_def)
    have full: "\<not> length (chan_buf (Recv ?mid)) < chan_cap (Recv ?mid)"
      using assms(4) by (simp add: frame_values_def)
    show "recv_iteration lib ?mid =
            Stop (BlockedOnRecvChan v)
                 (?mid\<lparr>soc := (soc ?mid)\<lparr>sock_rd := frame_events post @ rest\<rparr>\<rparr>)"
      using recv_iteration_payload [OF ns so de rd nm ty pl] ro full
      by (simp add: chan_send_open)
  qed
  ultimately show ?thesis by simp
qed

subsection \<open>Sending a value of a type that is not registered\<close>

text \<open>
  Claim C3. When the value the send routine takes off \<open>Send\<close> has a type that is not
  in the registry, the routine panics and the socket is as it was: neither the type name
  nor the payload has been written.
\<close>

theorem C3_unregistered_send_panics:
  assumes "chan_buf (Send wc) = data # q"
    and "TypeOf lib data \<notin> snd ` set (allowedTypes wc)"
  shows "send_routine lib wc =
           (Panicked (PanicError (sendError
              (ErrorString (''type not allowed: '' @ Sprintf_T lib data)))),
            wc\<lparr>Send := (Send wc)\<lparr>chan_buf := q\<rparr>\<rparr>)
       \<and> soc (snd (send_routine lib wc)) = soc wc
       \<and> sock_wire (soc (snd (send_routine lib wc))) = sock_wire (soc wc)"
proof -
  have "send_routine lib wc =
           (Panicked (PanicError (sendError
              (ErrorString (''type not allowed: '' @ Sprintf_T lib data)))),
            wc\<lparr>Send := (Send wc)\<lparr>chan_buf := q\<rparr>\<rparr>)"
    by (rule send_routine_Stop) (rule send_iteration_unregistered [OF assms])
  then show ?thesis by simp
qed

theorem C3_unregistered_send_panics_witness:
  "chan_buf (Send (ex_wc\<lparr>Send := \<lparr>chan_buf = [VInt 7], chan_cap = 2, chan_closed = False\<rparr>\<rparr>))
     = VInt 7 # []
   \<and> TypeOf ex_lib (VInt 7) \<notin> snd ` set (allowedTypes ex_wc)
   \<and> send_routine ex_lib (ex_wc\<lparr>Send := \<lparr>chan_buf = [VInt 7], chan_cap = 2, chan_closed = False\<rparr>\<rparr>)
       = (Panicked (PanicError (sendError (ErrorString ''type not allowed: int''))),
          ex_wc\<lparr>Send := \<lparr>chan_buf = [], chan_cap = 2, chan_closed = False\<rparr>\<rparr>)
   \<and> sock_wire (soc (snd (send_routine ex_lib
         (ex_wc\<lparr>Send := \<lparr>chan_buf = [VInt 7], chan_cap = 2, chan_closed = False\<rparr>\<rparr>)))) = []"
proof -
  let ?wc = "ex_wc\<lparr>Send := \<lparr>chan_buf = [VInt 7], chan_cap = 2, chan_closed = False\<rparr>\<rparr>"
  have h1: "chan_buf (Send ?wc) = VInt 7 # []" by simp
  have h2: "TypeOf ex_lib (VInt 7) \<notin> snd ` set (allowedTypes ?wc)"
    by (simp add: ex_lib_def ex_wc_def)
  from C3_unregistered_send_panics [OF h1 h2] h2
  show ?thesis by (simp add: Sprintf_T_def ex_lib_def ex_wc_def ex_sock_def)
qed

text \<open>
  Claim C9, as stated, fails: the value the panic carries is a \<open>*sendError\<close>. An
  endpoint that allows strings and points is given an integer to send.
\<close>

theorem C9_panic_value_counterexample:
  "TypeOf ex_lib (VInt 7) \<notin> snd ` set (allowedTypes ex_wc)
   \<and> fst (send_routine ex_lib
            (ex_wc\<lparr>Send := \<lparr>chan_buf = [VInt 7], chan_cap = 2, chan_closed = False\<rparr>\<rparr>))
       = Panicked (PanicError (sendError (ErrorString ''type not allowed: int'')))"
proof -
  let ?wc = "ex_wc\<lparr>Send := \<lparr>chan_buf = [VInt 7], chan_cap = 2, chan_closed = False\<rparr>\<rparr>"
  have h1: "chan_buf (Send ?wc) = VInt 7 # []" by simp
  have h2: "TypeOf ex_lib (VInt 7) \<notin> snd ` set (allowedTypes ?wc)"
    by (simp add: ex_lib_def ex_wc_def)
  have "send_routine ex_lib ?wc =
          (Panicked (PanicError (sendError
              (ErrorString (''type not allowed: '' @ Sprintf_T ex_lib (VInt 7))))),
            ?wc\<lparr>Send := (Send ?wc)\<lparr>chan_buf := []\<rparr>\<rparr>)"
    by (rule send_routine_Stop) (rule send_iteration_unregistered [OF h1 h2])
  with h2 show ?thesis by (simp add: Sprintf_T_def ex_lib_def)
qed

text \<open>
  Claim C9, amended. Sending a value of an unregistered type differs from a reported send
  error in the way it is signalled, not in the value: the routine panics, nothing is put
  on the error queue, and the value of the panic is a \<open>*sendError\<close> whose \<open>Err\<close> is
  the message \<open>type not allowed: \<close> followed by the type.
\<close>

theorem C9_panic_carries_sendError:
  assumes "chan_buf (Send wc) = data # q"
    and "TypeOf lib data \<notin> snd ` set (allowedTypes wc)"
  shows "fst (send_routine lib wc) =
           Panicked (PanicError (sendError
              (ErrorString (''type not allowed: '' @ TypeString lib (TypeOf lib data)))))
       \<and> Error (snd (send_routine lib wc)) = Error wc"
proof -
  have "send_routine lib wc =
           (Panicked (PanicError (sendError
              (ErrorString (''type not allowed: '' @ Sprintf_T lib data)))),
            wc\<lparr>Send := (Send wc)\<lparr>chan_buf := q\<rparr>\<rparr>)"
    by (rule send_routine_Stop) (rule send_iteration_unregistered [OF assms])
  then show ?thesis by (simp add: Sprintf_T_def)
qed

theorem C9_panic_carries_sendError_witness:
  "chan_buf (Send (ex_wc\<lparr>Send := \<lparr>chan_buf = [VChan, VString ''x''], chan_cap = 2,
                                   chan_closed = False\<rparr>\<rparr>)) = VChan # [VString ''x'']
   \<and> TypeOf ex_lib VChan \<notin> snd ` set (allowedTypes ex_wc)
   \<and> fst (send_routine ex_lib
            (ex_wc\<lparr>Send := \<lparr>chan_buf = [VChan, VString ''x''], chan_cap = 2,
                              chan_closed = False\<rparr>\<rparr>))
       = Panicked (PanicError (sendError (ErrorString ''type not allowed: chan int'')))
   \<and> chan_buf (Error (snd (send_routine ex_lib
            (ex_wc\<lparr>Send := \<lparr>chan_buf = [VChan, VString ''x''], chan_cap = 2,
                              chan_closed = False\<rparr>\<rparr>)))) = []"
proof -
  let ?wc = "ex_wc\<lparr>Send := \<lparr>chan_buf = [VChan, VString ''x''], chan_cap = 2,
                              chan_closed = False\<rparr>\<rparr>"
  have h1: "chan_buf (Send ?wc) = VChan # [VString ''x'']" by simp
  have h2: "TypeOf ex_lib VChan \<notin> snd ` set (allowedTypes ?wc)"
    by (simp add: ex_lib_def ex_wc_def)
  from C9_panic_carries_sendError [OF h1 h2] h2
  show ?thesis by (simp add: ex_lib_def ex_wc_def)
qed

subsection \<open>A frame whose type name is not registered\<close>

text \<open>
  Claim C4. The receive routine reads a type name that its registry does not hold. The
  pass puts a \<open>recvError\<close> on the error queue when there is room (a full queue drops
  it) and continues. Of the stream it has taken the type name only, so the loop makes its
  next pass on a stream that begins with the payload of that frame, and that pass reads
  the payload as a type name: if it is no JSON string the pass reports the decoder's error
  and continues; if it is a string that is no registered name the pass reports that and
  continues; if it is a registered name the pass goes on to read what follows as a payload
  of that type. When nothing follows the frame, the routine is then found waiting for the
  socket; it has not returned. (It returns only if decoding the payload as a type name
  gives an error of the stream-closed class.)
\<close>

theorem C4_unregistered_name_keeps_payload:
  assumes "receiving wc"
    and "sock_rd (soc wc) = Item jn # Item jp # rest"
    and "UnmarshalString lib jn = Inr n"
    and "map_of (allowedTypes wc) n = None"
  shows "(let wc1 = wc\<lparr>soc := (soc wc)\<lparr>sock_rd := Item jp # rest\<rparr>,
                        Error := lossy_push (Error wc)
                                   (recvError (ErrorString (''type not allowed: '' @ n)))\<rparr>;
              s2 = (soc wc)\<lparr>sock_rd := rest\<rparr>
          in recv_iteration lib wc = Continue wc1
           \<and> recv_loop lib wc =
               (case recv_iteration lib wc1 of
                  Continue wc2 \<Rightarrow> recv_loop lib wc2
                | Stop st wc2 \<Rightarrow> Some (st, wc2))
           \<and> recv_iteration lib wc1 =
               (case UnmarshalString lib jp of
                  Inl e \<Rightarrow>
                    if stream_closed e then Stop Returned (wc1\<lparr>soc := s2\<rparr>)
                    else Continue (wc1\<lparr>soc := s2,
                                       Error := lossy_push (Error wc1) (recvError e)\<rparr>)
                | Inr m \<Rightarrow>
                    (case map_of (allowedTypes wc) m of
                       None \<Rightarrow>
                         Continue (wc1\<lparr>soc := s2,
                                       Error := lossy_push (Error wc1)
                                         (recvError (ErrorString (''type not allowed: '' @ m)))\<rparr>)
                     | Some t \<Rightarrow>
                         (case rest of
                            [] \<Rightarrow> Stop (BlockedOnPayload m) (wc1\<lparr>soc := s2\<rparr>)
                          | ev # rest' \<Rightarrow>
                              (case read_payload lib t ev of
                                 Inl e \<Rightarrow>
                                   if stream_closed e
                                   then Stop Returned
                                          (wc1\<lparr>soc := after_read (soc wc) ev rest'\<rparr>)
                                   else Continue
                                          (wc1\<lparr>soc := after_read (soc wc) ev rest',
                                               Error := lossy_push (Error wc1) (recvError e)\<rparr>)
                               | Inr v \<Rightarrow>
                                   if length (chan_buf (Recv wc)) < chan_cap (Recv wc)
                                   then Continue
                                          (wc1\<lparr>soc := (soc wc)\<lparr>sock_rd := rest'\<rparr>,
                                               Recv := (Recv wc)\<lparr>chan_buf :=
                                                         chan_buf (Recv wc) @ [v]\<rparr>\<rparr>)
                                   else Stop (BlockedOnRecvChan v)
                                          (wc1\<lparr>soc := (soc wc)\<lparr>sock_rd := rest'\<rparr>\<rparr>)))))
           \<and> (rest = [] \<longrightarrow>
                recv_loop lib wc =
                  Some (case UnmarshalString lib jp of
                          Inl e \<Rightarrow>
                            if stream_closed e then (Returned, wc1\<lparr>soc := s2\<rparr>)
                            else (BlockedOnRead,
                                  wc1\<lparr>soc := s2,
                                       Error := lossy_push (Error wc1) (recvError e)\<rparr>)
                        | Inr m \<Rightarrow>
                            (case map_of (allowedTypes wc) m of
                               None \<Rightarrow>
                                 (BlockedOnRead,
                                  wc1\<lparr>soc := s2,
                                       Error := lossy_push (Error wc1)
                                         (recvError (ErrorString (''type not allowed: '' @ m)))\<rparr>)
                             | Some t \<Rightarrow> (BlockedOnPayload m, wc1\<lparr>soc := s2\<rparr>)))))"
proof -
  let ?wc1 = "wc\<lparr>soc := (soc wc)\<lparr>sock_rd := Item jp # rest\<rparr>,
                  Error := lossy_push (Error wc)
                             (recvError (ErrorString (''type not allowed: '' @ n)))\<rparr>"
  let ?s2 = "(soc wc)\<lparr>sock_rd := rest\<rparr>"
  from assms(1) have ns: "no_shutdown wc" and so: "\<not> sock_closed (soc wc)"
    and de: "dec_err (soc wc) = None" and eo: "\<not> chan_closed (Error wc)"
    by (simp_all add: receiving_def)
  have name: "read_name lib (Item jn) = Inr n"
    using assms(3) by (simp add: read_name_def)
  have first: "recv_iteration lib wc = Continue ?wc1"
    by (rule recv_iteration_unregistered [OF ns so de eo assms(2) name assms(4)])
  have loop: "recv_loop lib wc =
               (case recv_iteration lib ?wc1 of
                  Continue wc2 \<Rightarrow> recv_loop lib wc2
                | Stop st wc2 \<Rightarrow> Some (st, wc2))"
    by (subst recv_loop_Continue [OF first], subst recv_loop.simps) (rule refl)
  \<comment> \<open>the next pass\<close>
  have rcv1: "receiving ?wc1" by (rule receiving_soc_Error [OF assms(1)])
  then have ns1: "no_shutdown ?wc1" and so1: "\<not> sock_closed (soc ?wc1)"
    and de1: "dec_err (soc ?wc1) = None" and eo1: "\<not> chan_closed (Error ?wc1)"
    and ro1: "\<not> chan_closed (Recv ?wc1)"
    by (simp_all add: receiving_def)
  have rd1: "sock_rd (soc ?wc1) = Item jp # rest" by simp
  have nm1: "read_name lib (Item jp) = UnmarshalString lib jp" by (simp add: read_name_def)
  let ?second =
    "case UnmarshalString lib jp of
       Inl e \<Rightarrow>
         if stream_closed e then Stop Returned (?wc1\<lparr>soc := ?s2\<rparr>)
         else Continue (?wc1\<lparr>soc := ?s2, Error := lossy_push (Error ?wc1) (recvError e)\<rparr>)
     | Inr m \<Rightarrow>
         (case map_of (allowedTypes wc) m of
            None \<Rightarrow>
              Continue (?wc1\<lparr>soc := ?s2,
                            Error := lossy_push (Error ?wc1)
                              (recvError (ErrorString (''type not allowed: '' @ m)))\<rparr>)
          | Some t \<Rightarrow>
              (case rest of
                 [] \<Rightarrow> Stop (BlockedOnPayload m) (?wc1\<lparr>soc := ?s2\<rparr>)
               | ev # rest' \<Rightarrow>
                   (case read_payload lib t ev of
                      Inl e \<Rightarrow>
                        if stream_closed e
                        then Stop Returned (?wc1\<lparr>soc := after_read (soc wc) ev rest'\<rparr>)
                        else Continue (?wc1\<lparr>soc := after_read (soc wc) ev rest',
                                           Error := lossy_push (Error ?wc1) (recvError e)\<rparr>)
                    | Inr v \<Rightarrow>
                        if length (chan_buf (Recv wc)) < chan_cap (Recv wc)
                        then Continue (?wc1\<lparr>soc := (soc wc)\<lparr>sock_rd := rest'\<rparr>,
                                           Recv := (Recv wc)\<lparr>chan_buf :=
                                                     chan_buf (Recv wc) @ [v]\<rparr>\<rparr>)
                        else Stop (BlockedOnRecvChan v)
                               (?wc1\<lparr>soc := (soc wc)\<lparr>sock_rd := rest'\<rparr>\<rparr>))))"
  have second: "recv_iteration lib ?wc1 = ?second"
  proof (cases "UnmarshalString lib jp")
    case (Inl e)
    with nm1 have "read_name lib (Item jp) = Inl e" by simp
    from recv_iteration_name_error [OF ns1 so1 de1 eo1 rd1 this] Inl
    show ?thesis by simp
  next
    case (Inr m)
    with nm1 have nm: "read_name lib (Item jp) = Inr m" by simp
    show ?thesis
    proof (cases "map_of (allowedTypes wc) m")
      case None
      then have "map_of (allowedTypes ?wc1) m = None" by simp
      from recv_iteration_unregistered [OF ns1 so1 de1 eo1 rd1 nm this] Inr None
      show ?thesis by simp
    next
      case (Some t)
      then have ty: "map_of (allowedTypes ?wc1) m = Some t" by simp
      show ?thesis
      proof (cases rest)
        case Nil
        with rd1 have "sock_rd (soc ?wc1) = [Item jp]" by simp
        from recv_iteration_payload_wait [OF ns1 so1 de1 this nm ty] Inr Some Nil
        show ?thesis by simp
      next
        case (Cons ev rest')
        with rd1 have rd2: "sock_rd (soc ?wc1) = Item jp # ev # rest'" by simp
        show ?thesis
        proof (cases "read_payload lib t ev")
          case (Inl e)
          from recv_iteration_payload_error [OF ns1 so1 de1 eo1 rd2 nm ty Inl]
            Inr Some Cons Inl
          show ?thesis by simp
        next
          case payload: (Inr v)
          from recv_iteration_payload [OF ns1 so1 de1 rd2 nm ty payload]
            ro1 Inr Some Cons payload
          show ?thesis by (simp add: chan_send_open)
        qed
      qed
    qed
  qed
  \<comment> \<open>nothing follows the frame\<close>
  have alone: "recv_loop lib wc =
                  Some (case UnmarshalString lib jp of
                          Inl e \<Rightarrow>
                            if stream_closed e then (Returned, ?wc1\<lparr>soc := ?s2\<rparr>)
                            else (BlockedOnRead,
                                  ?wc1\<lparr>soc := ?s2,
                                       Error := lossy_push (Error ?wc1) (recvError e)\<rparr>)
                        | Inr m \<Rightarrow>
                            (case map_of (allowedTypes wc) m of
                               None \<Rightarrow>
                                 (BlockedOnRead,
                                  ?wc1\<lparr>soc := ?s2,
                                       Error := lossy_push (Error ?wc1)
                                         (recvError (ErrorString (''type not allowed: '' @ m)))\<rparr>)
                             | Some t \<Rightarrow> (BlockedOnPayload m, ?wc1\<lparr>soc := ?s2\<rparr>)))"
    if empty: "rest = []"
  proof -
    have waiting: "recv_loop lib (?wc1\<lparr>soc := ?s2, Error := c\<rparr>)
                     = Some (BlockedOnRead, ?wc1\<lparr>soc := ?s2, Error := c\<rparr>)"
      if "\<not> chan_closed c" for c
      by (rule recv_loop_Stop, rule recv_iteration_wait)
         (use ns so de empty in \<open>simp_all add: no_shutdown_def\<close>)
    show ?thesis
    proof (cases "UnmarshalString lib jp")
      case (Inl e)
      show ?thesis
      proof (cases "stream_closed e")
        case True
        with second Inl have "recv_iteration lib ?wc1 = Stop Returned (?wc1\<lparr>soc := ?s2\<rparr>)"
          by simp
        with loop Inl True show ?thesis by simp
      next
        case False
        with second Inl
        have "recv_iteration lib ?wc1 =
                Continue (?wc1\<lparr>soc := ?s2, Error := lossy_push (Error ?wc1) (recvError e)\<rparr>)"
          by simp
        with loop waiting [of "lossy_push (Error ?wc1) (recvError e)"] eo Inl False
        show ?thesis by simp
      qed
    next
      case (Inr m)
      show ?thesis
      proof (cases "map_of (allowedTypes wc) m")
        case None
        with second Inr
        have "recv_iteration lib ?wc1 =
                Continue (?wc1\<lparr>soc := ?s2,
                              Error := lossy_push (Error ?wc1)
                                (recvError (ErrorString (''type not allowed: '' @ m)))\<rparr>)"
          by simp
        with loop
          waiting [of "lossy_push (Error ?wc1)
                         (recvError (ErrorString (''type not allowed: '' @ m)))"]
          eo Inr None
        show ?thesis by simp
      next
        case (Some t)
        with second Inr empty
        have "recv_iteration lib ?wc1 = Stop (BlockedOnPayload m) (?wc1\<lparr>soc := ?s2\<rparr>)"
          by simp
        with loop Inr Some show ?thesis by simp
      qed
    qed
  qed
  from first loop second alone show ?thesis
    unfolding Let_def by (intro conjI impI)
qed
text \<open>
  An endpoint for \<open>greeting\<close> and \<open>point\<close> receives the frame of an unknown name
  \<open>colour\<close> with a number as payload, and nothing after it. The payload is read as a
  type name and fails as such; with both errors on the queue the routine waits for the
  socket.
\<close>

theorem C4_unregistered_name_keeps_payload_witness:
  "receiving (ex_wc\<lparr>soc := ex_sock\<lparr>sock_rd := [Item (JString ''colour''), Item (JNumber 3)]\<rparr>\<rparr>)
   \<and> UnmarshalString ex_lib (JString ''colour'') = Inr ''colour''
   \<and> map_of (allowedTypes ex_wc) ''colour'' = None
   \<and> recv_iteration ex_lib
        (ex_wc\<lparr>soc := ex_sock\<lparr>sock_rd := [Item (JString ''colour''), Item (JNumber 3)]\<rparr>\<rparr>)
       = Continue
          (ex_wc\<lparr>soc := ex_sock\<lparr>sock_rd := [Item (JNumber 3)]\<rparr>,
                 Error := \<lparr>chan_buf = [recvError (ErrorString ''type not allowed: colour'')],
                           chan_cap = 100, chan_closed = False\<rparr>\<rparr>)
   \<and> recv_iteration ex_lib
        (ex_wc\<lparr>soc := ex_sock\<lparr>sock_rd := [Item (JNumber 3)]\<rparr>,
               Error := \<lparr>chan_buf = [recvError (ErrorString ''type not allowed: colour'')],
                         chan_cap = 100, chan_closed = False\<rparr>\<rparr>)
       = Continue
          (ex_wc\<lparr>soc := ex_sock\<lparr>sock_rd := []\<rparr>,
                 Error := \<lparr>chan_buf = [recvError (ErrorString ''type not allowed: colour''),
                                        recvError (ErrorString
                                          ''json: cannot unmarshal into Go value of type string'')],
                           chan_cap = 100, chan_closed = False\<rparr>\<rparr>)
   \<and> recv_loop ex_lib
        (ex_wc\<lparr>soc := ex_sock\<lparr>sock_rd := [Item (JString ''colour''), Item (JNumber 3)]\<rparr>\<rparr>)
       = Some (BlockedOnRead,
          ex_wc\<lparr>soc := ex_sock\<lparr>sock_rd := []\<rparr>,
                 Error := \<lparr>chan_buf = [recvError (ErrorString ''type not allowed: colour''),
                                        recvError (ErrorString
                                          ''json: cannot unmarshal into Go value of type string'')],
                           chan_cap = 100, chan_closed = False\<rparr>\<rparr>)"
proof -
  let ?wc = "ex_wc\<lparr>soc := ex_sock\<lparr>sock_rd := [Item (JString ''colour''), Item (JNumber 3)]\<rparr>\<rparr>"
  have h1: "receiving ?wc"
    by (simp add: receiving_def no_shutdown_def ex_wc_def ex_sock_def)
  have h2: "sock_rd (soc ?wc) = Item (JString ''colour'') # Item (JNumber 3) # []" by simp
  have h3: "UnmarshalString ex_lib (JString ''colour'') = Inr ''colour''"
    by (simp add: ex_lib_def)
  have h4: "map_of (allowedTypes ?wc) ''colour'' = None" by (simp add: ex_wc_def)
  have not_closed: "\<not> stream_closed
                        (ErrorString ''json: cannot unmarshal into Go value of type string'')"
    by (simp add: stream_closed_def)
  have payload: "UnmarshalString ex_lib (JNumber 3)
                   = Inl (ErrorString ''json: cannot unmarshal into Go value of type string'')"
    by (simp add: ex_lib_def)
  note main = C4_unregistered_name_keeps_payload [OF h1 h2 h3 h4, unfolded Let_def]
  from main [THEN conjunct1]
  have first: "recv_iteration ex_lib ?wc
       = Continue
          (ex_wc\<lparr>soc := ex_sock\<lparr>sock_rd := [Item (JNumber 3)]\<rparr>,
                 Error := \<lparr>chan_buf = [recvError (ErrorString ''type not allowed: colour'')],
                           chan_cap = 100, chan_closed = False\<rparr>\<rparr>)"
    by (simp add: lossy_push_def ex_wc_def ex_sock_def)
  from main [THEN conjunct2, THEN conjunct2, THEN conjunct1]
  have second: "recv_iteration ex_lib
        (ex_wc\<lparr>soc := ex_sock\<lparr>sock_rd := [Item (JNumber 3)]\<rparr>,
               Error := \<lparr>chan_buf = [recvError (ErrorString ''type not allowed: colour'')],
                         chan_cap = 100, chan_closed = False\<rparr>\<rparr>)
       = Continue
          (ex_wc\<lparr>soc := ex_sock\<lparr>sock_rd := []\<rparr>,
                 Error := \<lparr>chan_buf = [recvError (ErrorString ''type not allowed: colour''),
                                        recvError (ErrorString
                                          ''json: cannot unmarshal into Go value of type string'')],
                           chan_cap = 100, chan_closed = False\<rparr>\<rparr>)"
    by (simp add: payload not_closed lossy_push_def ex_wc_def ex_sock_def)
  from main [THEN conjunct2, THEN conjunct2, THEN conjunct2]
  have third: "recv_loop ex_lib ?wc
       = Some (BlockedOnRead,
          ex_wc\<lparr>soc := ex_sock\<lparr>sock_rd := []\<rparr>,
                 Error := \<lparr>chan_buf = [recvError (ErrorString ''type not allowed: colour''),
                                        recvError (ErrorString
                                          ''json: cannot unmarshal into Go value of type string'')],
                           chan_cap = 100, chan_closed = False\<rparr>\<rparr>)"
    by (simp add: payload not_closed lossy_push_def ex_wc_def ex_sock_def)
  from h1 h3 h4 first second third show ?thesis by simp
qed

subsection \<open>Construction\<close>

lemma NewNamedWebChan_accepted:
  assumes "0 \<le> n" and "n \<le> MaxChanSize lib" and "100 \<le> MaxChanSize lib"
  shows "NewNamedWebChan lib s n m =
     Inr \<lparr>Send = \<lparr>chan_buf = [], chan_cap = nat n, chan_closed = False\<rparr>,
          Recv = \<lparr>chan_buf = [], chan_cap = nat n, chan_closed = False\<rparr>,
          Error = \<lparr>chan_buf = [], chan_cap = 100, chan_closed = False\<rparr>,
          closeRecvChan = \<lparr>chan_buf = [], chan_cap = 0, chan_closed = False\<rparr>,
          soc = s\<lparr>enc_err := None, dec_err := None\<rparr>,
          allowedTypes = foldl (\<lambda>m (k, v). AList.update k (TypeOf lib v) m) [] m\<rparr>"
  using assms by (simp add: NewNamedWebChan_def make_chan_def)

lemma NewNamedWebChan_refused:
  "n < 0 \<or> MaxChanSize lib < n \<Longrightarrow>
     NewNamedWebChan lib s n m = Inl (RuntimePanic ''makechan: size out of range'')"
  by (auto simp: NewNamedWebChan_def make_chan_def)

lemma NewNamedWebChan_Inr:
  assumes "NewNamedWebChan lib s n m = Inr wc"
  shows "chan_cap (Error wc) = 100" and "chan_cap (Send wc) = nat n"
    and "chan_cap (Recv wc) = nat n"
  using assms
  by (auto simp: NewNamedWebChan_def make_chan_def Let_def split: if_splits)

text \<open>Filling a Go map by assignments, one per element of a list: the last one wins.\<close>

lemma map_of_foldl_update:
  "map_of (foldl (\<lambda>m x. AList.update (kf x) (vf x) m) acc xs)
     = map_of acc ++ map_of (rev (map (\<lambda>x. (kf x, vf x)) xs))"
proof (induction xs arbitrary: acc)
  case Nil
  show ?case by simp
next
  case (Cons x xs)
  let ?g = "\<lambda>x. (kf x, vf x)"
  have a: "map_of (AList.update (kf x) (vf x) acc) = map_of acc ++ map_of [(kf x, vf x)]"
    by (simp add: update_conv')
  have "map_of (foldl (\<lambda>m x. AList.update (kf x) (vf x) m) acc (x # xs))
          = (map_of acc ++ map_of [(kf x, vf x)]) ++ map_of (rev (map ?g xs))"
    by (simp only: foldl_Cons Cons.IH a)
  also have "\<dots> = map_of acc ++ (map_of [(kf x, vf x)] ++ map_of (rev (map ?g xs)))"
    by (rule map_add_assoc [symmetric])
  also have "map_of [(kf x, vf x)] ++ map_of (rev (map ?g xs)) = map_of (rev (map ?g (x # xs)))"
    by (simp only: list.map rev.simps map_of_append)
  finally show ?case .
qed

lemma distinct_foldl_update:
  "distinct (map fst acc) \<Longrightarrow>
     distinct (map fst (foldl (\<lambda>m x. AList.update (kf x) (vf x) m) acc xs))"
  by (induction xs arbitrary: acc) (simp_all add: distinct_update)

lemma map_of_rev_distinct:
  "distinct (map fst xs) \<Longrightarrow> map_of (rev xs) = map_of xs"
proof (induction xs)
  case Nil
  show ?case by simp
next
  case (Cons p xs)
  then have "fst p \<notin> dom (map_of xs)" by (simp add: dom_map_of_conv_image_fst)
  then have "map_of xs (fst p) = None" by blast
  with Cons show ?case
    by (cases p) (auto simp: map_add_def fun_eq_iff split: option.splits)
qed

lemma map_of_foldl_update_pairs:
  "map_of (foldl (\<lambda>m (k, v). AList.update k (f v) m) acc kvs)
     = map_of acc ++ map_of (rev (map (\<lambda>(k, v). (k, f v)) kvs))"
  using map_of_foldl_update [of fst "\<lambda>x. f (snd x)" acc kvs]
  by (simp add: case_prod_unfold)

lemma distinct_foldl_update_pairs:
  "distinct (map fst acc) \<Longrightarrow>
     distinct (map fst (foldl (\<lambda>m (k, v). AList.update k (f v) m) acc kvs))"
  using distinct_foldl_update [of acc fst "\<lambda>x. f (snd x)" kvs]
  by (simp add: case_prod_unfold)

lemma NewWebChan_registry:
  "map_of (foldl (\<lambda>m (k, v). AList.update k (TypeOf lib v) m) []
             (foldl (\<lambda>m v. AList.update (Sprintf_T lib v) v m) [] vs))
     = map_option (TypeOf lib) \<circ> map_of (rev (map (\<lambda>v. (Sprintf_T lib v, v)) vs))"
proof -
  let ?m = "foldl (\<lambda>m v. AList.update (Sprintf_T lib v) v m) [] vs"
  have d: "distinct (map fst ?m)" by (rule distinct_foldl_update) simp
  have m: "map_of ?m = map_of (rev (map (\<lambda>v. (Sprintf_T lib v, v)) vs))"
    by (simp add: map_of_foldl_update)
  have "map_of (foldl (\<lambda>m (k, v). AList.update k (TypeOf lib v) m) [] ?m)
          = map_of (rev (map (\<lambda>(k, v). (k, TypeOf lib v)) ?m))"
    by (simp add: map_of_foldl_update_pairs)
  also have "\<dots> = map_of (map (\<lambda>(k, v). (k, TypeOf lib v)) ?m)"
    by (rule map_of_rev_distinct) (simp add: d comp_def case_prod_unfold)
  also have "\<dots> = map_option (TypeOf lib) \<circ> map_of ?m"
    by (rule map_of_map)
  finally show ?thesis by (simp only: m)
qed

lemma NewWebChan_distinct:
  "distinct (map fst (foldl (\<lambda>m (k, v). AList.update k (TypeOf lib v) m) [] kvs))"
  by (rule distinct_foldl_update_pairs) simp

text \<open>
  Claim C8, as stated, fails: \<open>NewWebChan\<close> is given two strings, both of which get the
  name \<open>string\<close>, and returns a channel whose registry has one entry.
\<close>

theorem C8_duplicate_name_counterexample:
  "\<not> distinct (map (Sprintf_T ex_lib) [VString ''a'', VString ''b''])
   \<and> NewWebChan ex_lib ex_sock 10 [VString ''a'', VString ''b''] =
       Inr \<lparr>Send = \<lparr>chan_buf = [], chan_cap = 10, chan_closed = False\<rparr>,
            Recv = \<lparr>chan_buf = [], chan_cap = 10, chan_closed = False\<rparr>,
            Error = \<lparr>chan_buf = [], chan_cap = 100, chan_closed = False\<rparr>,
            closeRecvChan = \<lparr>chan_buf = [], chan_cap = 0, chan_closed = False\<rparr>,
            soc = ex_sock,
            allowedTypes = [(''string'', TString)]\<rparr>"
  by (simp add: NewWebChan_def NewNamedWebChan_def make_chan_def Sprintf_T_def ex_lib_def
                ex_sock_def)

text \<open>
  Claim C8, amended. Construction does not look for duplicate names. \<open>NewWebChan\<close>
  derives a name from each prototype and stores the prototypes in a map, so of several
  prototypes with one name the last is kept. Whenever the runtime accepts the buffer
  length for a channel (it is not negative and not above the largest size \<open>make\<close>
  takes, which is at least the 100 of the error queue), \<open>NewWebChan\<close> returns a
  channel, also when names repeat; its registry has distinct names and binds each derived
  name to the type of the last prototype of that name. \<open>NewNamedWebChan\<close> is given a
  map, in which a name cannot occur twice.
\<close>

theorem C8_NewWebChan_keeps_last:
  assumes "0 \<le> bufLength" and "bufLength \<le> MaxChanSize lib"
    and "100 \<le> MaxChanSize lib"
  shows "\<exists>wc. NewWebChan lib s bufLength vs = Inr wc
            \<and> distinct (map fst (allowedTypes wc))
            \<and> map_of (allowedTypes wc)
                = map_option (TypeOf lib) \<circ> map_of (rev (map (\<lambda>v. (Sprintf_T lib v, v)) vs))"
proof -
  let ?m = "foldl (\<lambda>m v. AList.update (Sprintf_T lib v) v m) [] vs"
  have "NewWebChan lib s bufLength vs = NewNamedWebChan lib s bufLength ?m"
    by (simp add: NewWebChan_def)
  with NewNamedWebChan_accepted [OF assms, of s ?m]
  show ?thesis
    by (simp add: NewWebChan_registry NewWebChan_distinct)
qed

theorem C8_NewWebChan_keeps_last_witness:
  "(0::int) \<le> 10 \<and> 10 \<le> MaxChanSize ex_lib \<and> 100 \<le> MaxChanSize ex_lib
   \<and> (\<exists>wc. NewWebChan ex_lib ex_sock 10 [VString ''a'', VPoint 1 2, VString ''b''] = Inr wc
          \<and> distinct (map fst (allowedTypes wc))
          \<and> map_of (allowedTypes wc) ''string'' = Some TString
          \<and> map_of (allowedTypes wc) ''webchan.point'' = Some TPoint
          \<and> map_of (allowedTypes wc) ''int'' = None)"
proof -
  have h: "(0::int) \<le> 10" by simp
  have h2: "10 \<le> MaxChanSize ex_lib" by (simp add: ex_lib_def)
  have h3: "100 \<le> MaxChanSize ex_lib" by (simp add: ex_lib_def)
  from C8_NewWebChan_keeps_last [OF h h2 h3, of ex_sock "[VString ''a'', VPoint 1 2, VString ''b'']"]
  obtain wc where "NewWebChan ex_lib ex_sock 10 [VString ''a'', VPoint 1 2, VString ''b''] = Inr wc"
    and "distinct (map fst (allowedTypes wc))"
    and "map_of (allowedTypes wc) = map_option (TypeOf ex_lib)
           \<circ> map_of (rev (map (\<lambda>v. (Sprintf_T ex_lib v, v)) [VString ''a'', VPoint 1 2, VString ''b'']))"
    by blast
  with h2 h3 show ?thesis by (auto simp: Sprintf_T_def ex_lib_def)
qed

subsection \<open>The error queue is bounded and lossy\<close>

text \<open>
  Claim C7. The constructor gives the error queue the capacity 100 whatever buffer length
  the caller asks for, which goes to \<open>Send\<close> and \<open>Recv\<close>. \<open>tryPushError\<close> on a full
  (and, as always, open) error queue returns the state unchanged: the error is dropped and
  nothing waits. So a pass of either routine that has an error to report goes on to the
  next pass: the send routine when a write of the frame fails, the receive routine when
  the read of a type name (by a decoder that has kept no error) fails with an error
  outside the stream-closed class; \<open>after_read\<close> is the socket after that read.
\<close>

theorem C7_error_queue_bounded_lossy:
  assumes "NewNamedWebChan lib s bufLength m = Inr wc0"
    and "\<not> chan_closed (Error wc)"
    and "chan_cap (Error wc) \<le> length (chan_buf (Error wc))"
  shows "chan_cap (Error wc0) = 100
       \<and> chan_cap (Send wc0) = nat bufLength \<and> chan_cap (Recv wc0) = nat bufLength
       \<and> tryPushError wc err = Inr wc
       \<and> (chan_buf (Send wc) = data # q \<longrightarrow> getAllowedTypeName lib wc data = (n, True) \<longrightarrow>
            write_frame lib (soc wc) n data = (Some e, s') \<longrightarrow>
            send_iteration lib wc = Continue (wc\<lparr>Send := (Send wc)\<lparr>chan_buf := q\<rparr>, soc := s'\<rparr>))
       \<and> (no_shutdown wc \<longrightarrow> \<not> sock_closed (soc wc) \<longrightarrow> dec_err (soc wc) = None \<longrightarrow>
            sock_rd (soc wc) = ev # rest \<longrightarrow>
            read_name lib ev = Inl e' \<longrightarrow> \<not> stream_closed e' \<longrightarrow>
            recv_iteration lib wc = Continue (wc\<lparr>soc := after_read (soc wc) ev rest\<rparr>))"
proof -
  have full: "lossy_push (Error wc) x = Error wc" for x
    using assms(3) by (simp add: lossy_push_def)
  have "tryPushError wc err = Inr wc"
    by (simp add: tryPushError_open [OF assms(2)] full)
  moreover have "send_iteration lib wc =
                   Continue (wc\<lparr>Send := (Send wc)\<lparr>chan_buf := q\<rparr>, soc := s'\<rparr>)"
    if "chan_buf (Send wc) = data # q" and "getAllowedTypeName lib wc data = (n, True)"
      and "write_frame lib (soc wc) n data = (Some e, s')"
    using send_iteration_registered [OF that(1,2) assms(2)] that(3) by (simp add: full)
  moreover have "recv_iteration lib wc = Continue (wc\<lparr>soc := after_read (soc wc) ev rest\<rparr>)"
    if "no_shutdown wc" and "\<not> sock_closed (soc wc)" and "dec_err (soc wc) = None"
      and "sock_rd (soc wc) = ev # rest"
      and "read_name lib ev = Inl e'" and "\<not> stream_closed e'"
    using recv_iteration_name_error [OF that(1,2,3) assms(2) that(4,5)] that(6)
    by (simp add: full)
  ultimately show ?thesis
    using NewNamedWebChan_Inr [OF assms(1)] by blast
qed

text \<open>
  An endpoint built with buffer length 2 whose error queue holds 100 errors; its next
  write and its next read time out.
\<close>

theorem C7_error_queue_bounded_lossy_witness:
  "(\<exists>wc0. NewNamedWebChan ex_lib ex_sock 2 [(''greeting'', VString '''')] = Inr wc0
          \<and> chan_cap (Error wc0) = 100 \<and> chan_cap (Send wc0) = 2)
   \<and> tryPushError
        (ex_wc\<lparr>Error := \<lparr>chan_buf = replicate 100 (recvError (ErrorString ''timeout'')),
                          chan_cap = 100, chan_closed = False\<rparr>\<rparr>)
        (sendError (ErrorString ''timeout''))
       = Inr (ex_wc\<lparr>Error := \<lparr>chan_buf = replicate 100 (recvError (ErrorString ''timeout'')),
                                chan_cap = 100, chan_closed = False\<rparr>\<rparr>)
   \<and> send_iteration ex_lib
        (ex_wc\<lparr>Error := \<lparr>chan_buf = replicate 100 (recvError (ErrorString ''timeout'')),
                          chan_cap = 100, chan_closed = False\<rparr>,
               Send := \<lparr>chan_buf = [VString ''hi''], chan_cap = 2, chan_closed = False\<rparr>,
               soc := ex_sock\<lparr>sock_wfaults := [Some (ErrorString ''timeout'')],
                              sock_rd := [Fault (ErrorString ''timeout'')]\<rparr>\<rparr>)
       = Continue
          (ex_wc\<lparr>Error := \<lparr>chan_buf = replicate 100 (recvError (ErrorString ''timeout'')),
                            chan_cap = 100, chan_closed = False\<rparr>,
                 Send := \<lparr>chan_buf = [], chan_cap = 2, chan_closed = False\<rparr>,
                 soc := ex_sock\<lparr>sock_wfaults := [],
                                sock_rd := [Fault (ErrorString ''timeout'')],
                                enc_err := Some (ErrorString ''timeout'')\<rparr>\<rparr>)
   \<and> recv_iteration ex_lib
        (ex_wc\<lparr>Error := \<lparr>chan_buf = replicate 100 (recvError (ErrorString ''timeout'')),
                          chan_cap = 100, chan_closed = False\<rparr>,
               Send := \<lparr>chan_buf = [VString ''hi''], chan_cap = 2, chan_closed = False\<rparr>,
               soc := ex_sock\<lparr>sock_wfaults := [Some (ErrorString ''timeout'')],
                              sock_rd := [Fault (ErrorString ''timeout'')]\<rparr>\<rparr>)
       = Continue
          (ex_wc\<lparr>Error := \<lparr>chan_buf = replicate 100 (recvError (ErrorString ''timeout'')),
                            chan_cap = 100, chan_closed = False\<rparr>,
                 Send := \<lparr>chan_buf = [VString ''hi''], chan_cap = 2, chan_closed = False\<rparr>,
                 soc := ex_sock\<lparr>sock_wfaults := [Some (ErrorString ''timeout'')],
                                sock_rd := [],
                                dec_err := Some (ErrorString ''timeout'')\<rparr>\<rparr>)"
proof -
  let ?full = "\<lparr>chan_buf = replicate 100 (recvError (ErrorString ''timeout'')),
                chan_cap = 100, chan_closed = False\<rparr>"
  let ?wc = "ex_wc\<lparr>Error := ?full,
               Send := \<lparr>chan_buf = [VString ''hi''], chan_cap = 2, chan_closed = False\<rparr>,
               soc := ex_sock\<lparr>sock_wfaults := [Some (ErrorString ''timeout'')],
                              sock_rd := [Fault (ErrorString ''timeout'')]\<rparr>\<rparr>"
  let ?built = "\<lparr>Send = \<lparr>chan_buf = [], chan_cap = 2, chan_closed = False\<rparr>,
          Recv = \<lparr>chan_buf = [], chan_cap = 2, chan_closed = False\<rparr>,
          Error = \<lparr>chan_buf = [], chan_cap = 100, chan_closed = False\<rparr>,
          closeRecvChan = \<lparr>chan_buf = [], chan_cap = 0, chan_closed = False\<rparr>,
          soc = ex_sock,
          allowedTypes = [(''greeting'', TString)]\<rparr>"
  have h1: "NewNamedWebChan ex_lib ex_sock 2 [(''greeting'', VString '''')] = Inr ?built"
    by (simp add: NewNamedWebChan_def make_chan_def ex_lib_def ex_sock_def)
  have h2: "\<not> chan_closed (Error (ex_wc\<lparr>Error := ?full\<rparr>))" by simp
  have h3: "chan_cap (Error (ex_wc\<lparr>Error := ?full\<rparr>))
              \<le> length (chan_buf (Error (ex_wc\<lparr>Error := ?full\<rparr>)))" by simp
  have k2: "\<not> chan_closed (Error ?wc)" by simp
  have k3: "chan_cap (Error ?wc) \<le> length (chan_buf (Error ?wc))" by simp
  have s1: "chan_buf (Send ?wc) = VString ''hi'' # []" by simp
  have s2: "getAllowedTypeName ex_lib ?wc (VString ''hi'') = (''greeting'', True)"
    by (simp add: getAllowedTypeName_def ex_lib_def ex_wc_def)
  have s3: "write_frame ex_lib (soc ?wc) ''greeting'' (VString ''hi'')
              = (Some (ErrorString ''timeout''),
                 ex_sock\<lparr>sock_wfaults := [], sock_rd := [Fault (ErrorString ''timeout'')],
                         enc_err := Some (ErrorString ''timeout'')\<rparr>)"
    by (simp add: write_frame_def Encode_string_def enc_Write_def sock_Write_def ex_sock_def)
  have r1: "no_shutdown ?wc" by (simp add: no_shutdown_def ex_wc_def)
  have r2: "\<not> sock_closed (soc ?wc)" by (simp add: ex_sock_def)
  have r0: "dec_err (soc ?wc) = None" by (simp add: ex_sock_def)
  have r3: "sock_rd (soc ?wc) = Fault (ErrorString ''timeout'') # []" by simp
  have r4: "read_name ex_lib (Fault (ErrorString ''timeout'')) = Inl (ErrorString ''timeout'')"
    by (simp add: read_name_def)
  have r5: "\<not> stream_closed (ErrorString ''timeout'')" by (simp add: stream_closed_def)
  note a = C7_error_queue_bounded_lossy [OF h1 h2 h3,
      of "sendError (ErrorString ''timeout'')"]
  note b = C7_error_queue_bounded_lossy [OF h1 k2 k3]
  have "chan_cap (Error ?built) = 100 \<and> chan_cap (Send ?built) = 2" by simp
  with h1 have first: "\<exists>wc0. NewNamedWebChan ex_lib ex_sock 2 [(''greeting'', VString '''')] = Inr wc0
          \<and> chan_cap (Error wc0) = 100 \<and> chan_cap (Send wc0) = 2" by blast
  from a have second: "tryPushError (ex_wc\<lparr>Error := ?full\<rparr>) (sendError (ErrorString ''timeout''))
                 = Inr (ex_wc\<lparr>Error := ?full\<rparr>)" by blast
  from b s1 s2 s3 have third: "send_iteration ex_lib ?wc =
      Continue (?wc\<lparr>Send := (Send ?wc)\<lparr>chan_buf := []\<rparr>,
                    soc := ex_sock\<lparr>sock_wfaults := [], sock_rd := [Fault (ErrorString ''timeout'')],
                                   enc_err := Some (ErrorString ''timeout'')\<rparr>\<rparr>)"
    by blast
  from b r1 r2 r0 r3 r4 r5 have fourth: "recv_iteration ex_lib ?wc =
      Continue (?wc\<lparr>soc := after_read (soc ?wc) (Fault (ErrorString ''timeout'')) []\<rparr>)"
    by blast
  from first second third fourth show ?thesis by simp
qed

subsection \<open>Closing twice\<close>

lemma recv_routine_stream_end:
  assumes "receiving wc" and "sock_rd (soc wc) = map Item js @ [Fault e]"
    and "stream_closed e"
  shows "case recv_routine lib wc of
           Some (Returned, wc') \<Rightarrow> chan_closed (Recv wc')
         | Some (BlockedOnRecvChan v, wc') \<Rightarrow>
             receiving wc' \<and> (\<exists>es'. sock_rd (soc wc') = es' @ [Fault e])
             \<and> length (sock_rd (soc wc')) < length (sock_rd (soc wc))
         | _ \<Rightarrow> False"
  using recv_loop_stream_end [OF assms, of lib]
  by (auto simp: recv_routine_def deferred_close_def chan_close_def
           split: option.splits prod.splits status.splits)

text \<open>
  Claim C5. The first \<open>Close\<close> sets the shutdown signal, closes \<open>Send\<close> and closes the
  socket, once; it leaves \<open>Recv\<close> alone. A second \<open>Close\<close> returns the state it is
  given, without a panic: the socket has been closed once. The peer, whose stream is what
  was written to the socket followed by its end, ends its receive routine by closing its
  \<open>Recv\<close>, which was open till then, so it is closed once; before that the routine can
  only wait for room on \<open>Recv\<close>, in a state that still has the end of the stream ahead;
  it does not run forever.
\<close>

theorem C5_Close_idempotent:
  assumes "no_shutdown wc" and "\<not> chan_closed (Send wc)"
    and "receiving peer"
    and "sock_rd (soc peer) = remote_reads (sock_Close (soc wc))"
  shows "(let wc1 = wc\<lparr>closeRecvChan := (closeRecvChan wc)\<lparr>chan_closed := True\<rparr>,
                        Send := (Send wc)\<lparr>chan_closed := True\<rparr>,
                        soc := sock_Close (soc wc)\<rparr>
          in Close wc = Inr wc1 \<and> Close wc1 = Inr wc1
           \<and> sock_closed (soc wc1) \<and> sock_closes (soc wc1) = Suc (sock_closes (soc wc))
           \<and> Recv wc1 = Recv wc)
       \<and> (case recv_routine lib peer of
             Some (Returned, p) \<Rightarrow> chan_closed (Recv p)
           | Some (BlockedOnRecvChan v, p) \<Rightarrow>
               receiving p \<and> (\<exists>es. sock_rd (soc p) = es @ [Fault EOF])
               \<and> length (sock_rd (soc p)) < length (sock_rd (soc peer))
           | _ \<Rightarrow> False)"
proof -
  let ?wc1 = "wc\<lparr>closeRecvChan := (closeRecvChan wc)\<lparr>chan_closed := True\<rparr>,
                  Send := (Send wc)\<lparr>chan_closed := True\<rparr>,
                  soc := sock_Close (soc wc)\<rparr>"
  from assms(1) have open_sig: "\<not> chan_closed (closeRecvChan wc)"
    and none: "chan_buf (closeRecvChan wc) = []"
    by (simp_all add: no_shutdown_def)
  have first: "Close wc = Inr ?wc1"
    by (rule Close_first [OF open_sig none assms(2)])
  have second: "Close ?wc1 = Inr ?wc1"
    by (rule Close_again) (simp_all add: none)
  have sock: "sock_closed (soc ?wc1) \<and> sock_closes (soc ?wc1) = Suc (sock_closes (soc wc))"
    by (simp add: sock_Close_def)
  have "sock_rd (soc peer) = map Item (sock_wire (soc wc)) @ [Fault EOF]"
    using assms(4) by (simp add: remote_reads_def sock_Close_def)
  moreover have "stream_closed EOF" by (simp add: stream_closed_def)
  ultimately have peer: "case recv_routine lib peer of
             Some (Returned, p) \<Rightarrow> chan_closed (Recv p)
           | Some (BlockedOnRecvChan v, p) \<Rightarrow>
               receiving p \<and> (\<exists>es. sock_rd (soc p) = es @ [Fault EOF])
               \<and> length (sock_rd (soc p)) < length (sock_rd (soc peer))
           | _ \<Rightarrow> False"
    by (rule recv_routine_stream_end [OF assms(3)])
  from first second sock peer show ?thesis
    unfolding Let_def by simp
qed

text \<open>
  One endpoint has sent a greeting and closes twice; the peer reads the greeting and the
  end of the stream.
\<close>

theorem C5_Close_idempotent_witness:
  "no_shutdown (ex_wc\<lparr>soc := ex_sock\<lparr>sock_wire := [JString ''greeting'', JString ''hi'']\<rparr>\<rparr>)
   \<and> receiving (ex_wc\<lparr>soc := ex_sock\<lparr>sock_rd := [Item (JString ''greeting''),
                                                    Item (JString ''hi''), Fault EOF]\<rparr>\<rparr>)
   \<and> Close (ex_wc\<lparr>soc := ex_sock\<lparr>sock_wire := [JString ''greeting'', JString ''hi'']\<rparr>\<rparr>)
       = Inr (ex_wc\<lparr>closeRecvChan := \<lparr>chan_buf = [], chan_cap = 0, chan_closed = True\<rparr>,
                    Send := \<lparr>chan_buf = [], chan_cap = 2, chan_closed = True\<rparr>,
                    soc := ex_sock\<lparr>sock_wire := [JString ''greeting'', JString ''hi''],
                                   sock_closed := True, sock_closes := 1\<rparr>\<rparr>)
   \<and> Close (ex_wc\<lparr>closeRecvChan := \<lparr>chan_buf = [], chan_cap = 0, chan_closed = True\<rparr>,
                    Send := \<lparr>chan_buf = [], chan_cap = 2, chan_closed = True\<rparr>,
                    soc := ex_sock\<lparr>sock_wire := [JString ''greeting'', JString ''hi''],
                                   sock_closed := True, sock_closes := 1\<rparr>\<rparr>)
       = Inr (ex_wc\<lparr>closeRecvChan := \<lparr>chan_buf = [], chan_cap = 0, chan_closed = True\<rparr>,
                    Send := \<lparr>chan_buf = [], chan_cap = 2, chan_closed = True\<rparr>,
                    soc := ex_sock\<lparr>sock_wire := [JString ''greeting'', JString ''hi''],
                                   sock_closed := True, sock_closes := 1\<rparr>\<rparr>)
   \<and> recv_routine ex_lib
        (ex_wc\<lparr>soc := ex_sock\<lparr>sock_rd := [Item (JString ''greeting''),
                                            Item (JString ''hi''), Fault EOF]\<rparr>\<rparr>)
       = Some (Returned,
          ex_wc\<lparr>soc := ex_sock\<lparr>sock_rd := [], dec_err := Some EOF\<rparr>,
                Recv := \<lparr>chan_buf = [VString ''hi''], chan_cap = 2, chan_closed = True\<rparr>\<rparr>)"
proof -
  let ?wc = "ex_wc\<lparr>soc := ex_sock\<lparr>sock_wire := [JString ''greeting'', JString ''hi'']\<rparr>\<rparr>"
  let ?peer = "ex_wc\<lparr>soc := ex_sock\<lparr>sock_rd := [Item (JString ''greeting''),
                                                 Item (JString ''hi''), Fault EOF]\<rparr>\<rparr>"
  have h1: "no_shutdown ?wc" by (simp add: no_shutdown_def ex_wc_def)
  have h2: "\<not> chan_closed (Send ?wc)" by (simp add: ex_wc_def)
  have h3: "receiving ?peer" by (simp add: receiving_def no_shutdown_def ex_wc_def ex_sock_def)
  have h4: "sock_rd (soc ?peer) = remote_reads (sock_Close (soc ?wc))"
    by (simp add: remote_reads_def sock_Close_def)
  have run: "recv_routine ex_lib ?peer
       = Some (Returned,
          ex_wc\<lparr>soc := ex_sock\<lparr>sock_rd := [], dec_err := Some EOF\<rparr>,
                Recv := \<lparr>chan_buf = [VString ''hi''], chan_cap = 2, chan_closed = True\<rparr>\<rparr>)"
    by (simp add: recv_routine_def recv_loop.simps recv_iteration_def chan_recv_def
                  Decode_string_def Decode_def dec_Read_def sock_Read_def
                  createTypeInterfaceReflectPointer_def chan_send_def stream_closed_def
                  deferred_close_def chan_close_def ex_wc_def ex_sock_def ex_lib_def)
  from C5_Close_idempotent [OF h1 h2 h3 h4, of ex_lib] h1 h3 run
  show ?thesis
    by (simp add: Let_def sock_Close_def ex_wc_def ex_sock_def)
qed

subsection \<open>Errors do not end the routines\<close>

text \<open>
  Claim C6. The send routine, given values of registered types, goes through the whole of
  its queue whatever the writes answer, and ends as the queue tells it to: returned when
  \<open>Send\<close> is closed, waiting on it otherwise. A pass in which a write of the frame
  fails, with any error, offers a \<open>sendError\<close> to the error queue and continues.

  The receive routine, with no shutdown signalled and a stream in which nothing of the
  stream-closed class occurs, never returns: either it runs forever (\<open>None\<close>) or it
  waits. A pass in which the read of the type name or of the payload fails offers a
  \<open>recvError\<close> to the error queue and continues. What follows depends on the error. An
  error of the decoding of a value that was read leaves the decoder as it was, and over a
  stream of values only the routine comes to wait. A failure of the read itself is kept by
  the decoder: every later pass gets the same error, offers it again and continues, so the
  routine runs forever without reading on.
\<close>

theorem C6_loops_survive_errors:
  assumes "\<forall>v \<in> set (chan_buf (Send wcS)). TypeOf lib v \<in> snd ` set (allowedTypes wcS)"
    and "\<not> chan_closed (Error wcS)"
    and "receiving wcR"
    and "\<forall>ev \<in> set (sock_rd (soc wcR)). \<not> closes_stream lib (allowedTypes wcR) ev"
  shows "fst (send_routine lib wcS)
           = (if chan_closed (Send wcS) then Returned else BlockedOnSendChan)
       \<and> chan_buf (Send (snd (send_routine lib wcS))) = []
       \<and> (chan_buf (Send wcS) = data # q \<longrightarrow> getAllowedTypeName lib wcS data = (n, True) \<longrightarrow>
            write_frame lib (soc wcS) n data = (Some e, s') \<longrightarrow>
            send_iteration lib wcS =
              Continue (wcS\<lparr>Send := (Send wcS)\<lparr>chan_buf := q\<rparr>, soc := s',
                            Error := lossy_push (Error wcS) (sendError e)\<rparr>))
       \<and> (case recv_routine lib wcR of None \<Rightarrow> True | Some (st, wc') \<Rightarrow> waits st)
       \<and> (sock_rd (soc wcR) = ev # rest \<longrightarrow> read_name lib ev = Inl e1 \<longrightarrow>
            recv_iteration lib wcR =
              Continue (wcR\<lparr>soc := after_read (soc wcR) ev rest,
                            Error := lossy_push (Error wcR) (recvError e1)\<rparr>))
       \<and> (sock_rd (soc wcR) = ev # ev' # rest' \<longrightarrow> read_name lib ev = Inr n1 \<longrightarrow>
            map_of (allowedTypes wcR) n1 = Some t \<longrightarrow> read_payload lib t ev' = Inl e2 \<longrightarrow>
            recv_iteration lib wcR =
              Continue (wcR\<lparr>soc := after_read (soc wcR) ev' rest',
                            Error := lossy_push (Error wcR) (recvError e2)\<rparr>))
       \<and> (sock_rd (soc wcR) = map Item js \<longrightarrow>
            (\<exists>st wc'. recv_routine lib wcR = Some (st, wc') \<and> waits st))
       \<and> (sock_rd (soc wcR) = Fault e3 # rest \<longrightarrow> recv_routine lib wcR = None)
       \<and> (no_shutdown wcK \<longrightarrow> \<not> chan_closed (Error wcK) \<longrightarrow> dec_err (soc wcK) = Some e4 \<longrightarrow>
            \<not> stream_closed e4 \<longrightarrow>
            recv_iteration lib wcK =
              Continue (wcK\<lparr>Error := lossy_push (Error wcK) (recvError e4)\<rparr>)
            \<and> recv_routine lib wcK = None)"
proof -
  from assms(3) have ns: "no_shutdown wcR" and so: "\<not> sock_closed (soc wcR)"
    and de: "dec_err (soc wcR) = None" and eo: "\<not> chan_closed (Error wcR)"
    by (simp_all add: receiving_def)
  note sending = send_routine_goes_on [OF assms(1,2)]
  have send_error: "send_iteration lib wcS =
              Continue (wcS\<lparr>Send := (Send wcS)\<lparr>chan_buf := q\<rparr>, soc := s',
                            Error := lossy_push (Error wcS) (sendError e)\<rparr>)"
    if "chan_buf (Send wcS) = data # q" and "getAllowedTypeName lib wcS data = (n, True)"
      and "write_frame lib (soc wcS) n data = (Some e, s')"
    using send_iteration_registered [OF that(1,2) assms(2)] that(3) by simp
  have und: "undisturbed lib wcR"
    by (rule undisturbed_receiving [OF assms(3,4)])
  have never: "case recv_routine lib wcR of None \<Rightarrow> True | Some (st, wc') \<Rightarrow> waits st"
  proof (cases "recv_routine lib wcR")
    case None
    then show ?thesis by simp
  next
    case (Some y)
    obtain st wc' where y: "y = (st, wc')" by (cases y)
    from recv_routine_Some [OF Some [unfolded y]]
    obtain st' wc'' where loop: "recv_loop lib wcR = Some (st', wc'')"
      and same: "waits st' \<longrightarrow> st = st'" by blast
    from recv_loop_never_returns [OF loop und] same have "waits st" by simp
    with Some y show ?thesis by simp
  qed
  have name_error: "recv_iteration lib wcR =
              Continue (wcR\<lparr>soc := after_read (soc wcR) ev rest,
                            Error := lossy_push (Error wcR) (recvError e1)\<rparr>)"
    if rd: "sock_rd (soc wcR) = ev # rest" and nm: "read_name lib ev = Inl e1"
    for ev rest e1
  proof -
    have "\<not> stream_closed e1"
    proof
      assume "stream_closed e1"
      from closes_stream_name [OF nm this] assms(4) rd show False by simp
    qed
    with recv_iteration_name_error [OF ns so de eo rd nm] show ?thesis by simp
  qed
  have payload_error: "recv_iteration lib wcR =
              Continue (wcR\<lparr>soc := after_read (soc wcR) ev' rest',
                            Error := lossy_push (Error wcR) (recvError e2)\<rparr>)"
    if rd: "sock_rd (soc wcR) = ev # ev' # rest'" and nm: "read_name lib ev = Inr n1"
      and ty: "map_of (allowedTypes wcR) n1 = Some t" and pl: "read_payload lib t ev' = Inl e2"
  proof -
    have "\<not> stream_closed e2"
    proof
      assume "stream_closed e2"
      from closes_stream_payload [OF pl this ty] assms(4) rd show False by simp
    qed
    with recv_iteration_payload_error [OF ns so de eo rd nm ty pl] show ?thesis by simp
  qed
  have items: "\<exists>st wc'. recv_routine lib wcR = Some (st, wc') \<and> waits st"
    if rd: "sock_rd (soc wcR) = map Item js"
  proof -
    from recv_loop_items_wait [OF assms(3) rd assms(4)]
    obtain st wc' where "recv_loop lib wcR = Some (st, wc')" and "waits st" by blast
    with recv_routine_waits [of lib wcR st wc'] show ?thesis by blast
  qed
  have kept: "recv_iteration lib wcK =
              Continue (wcK\<lparr>Error := lossy_push (Error wcK) (recvError e4)\<rparr>)
            \<and> recv_routine lib wcK = None"
    if "no_shutdown wcK" and "\<not> chan_closed (Error wcK)" and "dec_err (soc wcK) = Some e4"
      and "\<not> stream_closed e4"
    for wcK :: "('a, 'b, 'c) WebChan" and e4
    using recv_iteration_kept [OF that(1,2,3), of lib] that(4)
      recv_routine_None [OF recv_loop_spins [OF that, of lib]]
    by simp
  have fault: "recv_routine lib wcR = None" if rd: "sock_rd (soc wcR) = Fault e3 # rest"
  proof -
    have nm: "read_name lib (Fault e3) = Inl e3" by (simp add: read_name_def)
    have nc: "\<not> stream_closed e3"
      using assms(4) rd by (simp add: closes_stream_def)
    let ?wc1 = "wcR\<lparr>soc := after_read (soc wcR) (Fault e3) rest,
                    Error := lossy_push (Error wcR) (recvError e3)\<rparr>"
    have "recv_loop lib wcR = recv_loop lib ?wc1"
      by (rule recv_loop_Continue [OF name_error [OF rd nm]])
    moreover have "recv_loop lib ?wc1 = None"
      by (rule recv_loop_spins [where e = e3]) (use ns eo nc in \<open>simp_all add: no_shutdown_def\<close>)
    ultimately show ?thesis by (simp add: recv_routine_None)
  qed
  from sending send_error never name_error payload_error items fault kept
  show ?thesis by blast
qed

text \<open>
  A send routine whose first write times out, with a greeting and a point to send: the
  encoder keeps the error, so neither frame reaches the wire and both are reported. A
  receive routine that gets a greeting with a number as payload, and then a greeting:
  the first is reported, the second delivered, and the routine waits. A receive routine
  whose first read times out, with a greeting behind it: it reports the timeout pass after
  pass, runs forever and never reads the greeting.
\<close>

theorem C6_loops_survive_errors_witness:
  "send_routine ex_lib
     (ex_wc\<lparr>Send := \<lparr>chan_buf = [VString ''hi'', VPoint 1 2], chan_cap = 2,
                      chan_closed = False\<rparr>,
            soc := ex_sock\<lparr>sock_wfaults := [Some (ErrorString ''timeout'')]\<rparr>\<rparr>)
     = (BlockedOnSendChan,
        ex_wc\<lparr>Send := \<lparr>chan_buf = [], chan_cap = 2, chan_closed = False\<rparr>,
              soc := ex_sock\<lparr>sock_wfaults := [],
                             enc_err := Some (ErrorString ''timeout'')\<rparr>,
              Error := \<lparr>chan_buf = [sendError (ErrorString ''timeout''),
                                     sendError (ErrorString ''timeout'')], chan_cap = 100,
                        chan_closed = False\<rparr>\<rparr>)
   \<and> recv_routine ex_lib
       (ex_wc\<lparr>soc := ex_sock\<lparr>sock_rd :=
          [Item (JString ''greeting''), Item (JNumber 3),
           Item (JString ''greeting''), Item (JString ''hi'')]\<rparr>\<rparr>)
     = Some (BlockedOnRead,
        ex_wc\<lparr>soc := ex_sock\<lparr>sock_rd := []\<rparr>,
              Recv := \<lparr>chan_buf = [VString ''hi''], chan_cap = 2, chan_closed = False\<rparr>,
              Error := \<lparr>chan_buf = [recvError (ErrorString ''json: cannot unmarshal'')],
                        chan_cap = 100, chan_closed = False\<rparr>\<rparr>)
   \<and> waits (BlockedOnRead :: ex_value status)
   \<and> recv_iteration ex_lib
       (ex_wc\<lparr>soc := ex_sock\<lparr>sock_rd :=
          [Fault (ErrorString ''timeout''), Item (JString ''greeting''),
           Item (JString ''hi'')]\<rparr>\<rparr>)
     = Continue
        (ex_wc\<lparr>soc := ex_sock\<lparr>sock_rd := [Item (JString ''greeting''), Item (JString ''hi'')],
                               dec_err := Some (ErrorString ''timeout'')\<rparr>,
               Error := \<lparr>chan_buf = [recvError (ErrorString ''timeout'')], chan_cap = 100,
                         chan_closed = False\<rparr>\<rparr>)
   \<and> recv_iteration ex_lib
        (ex_wc\<lparr>soc := ex_sock\<lparr>sock_rd := [Item (JString ''greeting''), Item (JString ''hi'')],
                               dec_err := Some (ErrorString ''timeout'')\<rparr>,
               Error := \<lparr>chan_buf = [recvError (ErrorString ''timeout'')], chan_cap = 100,
                         chan_closed = False\<rparr>\<rparr>)
     = Continue
        (ex_wc\<lparr>soc := ex_sock\<lparr>sock_rd := [Item (JString ''greeting''), Item (JString ''hi'')],
                               dec_err := Some (ErrorString ''timeout'')\<rparr>,
               Error := \<lparr>chan_buf = [recvError (ErrorString ''timeout''),
                                      recvError (ErrorString ''timeout'')], chan_cap = 100,
                         chan_closed = False\<rparr>\<rparr>)
   \<and> recv_routine ex_lib
       (ex_wc\<lparr>soc := ex_sock\<lparr>sock_rd :=
          [Fault (ErrorString ''timeout''), Item (JString ''greeting''),
           Item (JString ''hi'')]\<rparr>\<rparr>)
     = None"
proof -
  let ?S = "ex_wc\<lparr>Send := \<lparr>chan_buf = [VString ''hi'', VPoint 1 2], chan_cap = 2,
                      chan_closed = False\<rparr>,
            soc := ex_sock\<lparr>sock_wfaults := [Some (ErrorString ''timeout'')]\<rparr>\<rparr>"
  let ?R = "ex_wc\<lparr>soc := ex_sock\<lparr>sock_rd :=
          [Item (JString ''greeting''), Item (JNumber 3),
           Item (JString ''greeting''), Item (JString ''hi'')]\<rparr>\<rparr>"
  let ?K = "ex_wc\<lparr>soc := ex_sock\<lparr>sock_rd :=
          [Fault (ErrorString ''timeout''), Item (JString ''greeting''),
           Item (JString ''hi'')]\<rparr>\<rparr>"
  let ?K1 = "ex_wc\<lparr>soc := ex_sock\<lparr>sock_rd := [Item (JString ''greeting''), Item (JString ''hi'')],
                               dec_err := Some (ErrorString ''timeout'')\<rparr>,
               Error := \<lparr>chan_buf = [recvError (ErrorString ''timeout'')], chan_cap = 100,
                         chan_closed = False\<rparr>\<rparr>"
  have h1: "\<forall>v \<in> set (chan_buf (Send ?S)). TypeOf ex_lib v \<in> snd ` set (allowedTypes ?S)"
    by (simp add: ex_lib_def ex_wc_def)
  have h2: "\<not> chan_closed (Error ?S)" by (simp add: ex_wc_def)
  have h3: "receiving ?R" by (simp add: receiving_def no_shutdown_def ex_wc_def ex_sock_def)
  have h4: "\<forall>ev \<in> set (sock_rd (soc ?R)). \<not> closes_stream ex_lib (allowedTypes ?R) ev"
    by (simp add: closes_stream_def stream_closed_def ex_lib_def ex_wc_def)
  have k3: "receiving ?K" by (simp add: receiving_def no_shutdown_def ex_wc_def ex_sock_def)
  have k4: "\<forall>ev \<in> set (sock_rd (soc ?K)). \<not> closes_stream ex_lib (allowedTypes ?K) ev"
    by (simp add: closes_stream_def stream_closed_def ex_lib_def ex_wc_def)
  note items = C6_loops_survive_errors [OF h1 h2 h3 h4]
  note fault = C6_loops_survive_errors [OF h1 h2 k3 k4, where wcK = ?K1
      and ?e4.0 = "ErrorString ''timeout''" and ?e3.0 = "ErrorString ''timeout''"
      and rest = "[Item (JString ''greeting''), Item (JString ''hi'')]"
      and ev = "Fault (ErrorString ''timeout'')" and ?e1.0 = "ErrorString ''timeout''"]
  have sent: "send_routine ex_lib ?S
     = (BlockedOnSendChan,
        ex_wc\<lparr>Send := \<lparr>chan_buf = [], chan_cap = 2, chan_closed = False\<rparr>,
              soc := ex_sock\<lparr>sock_wfaults := [],
                             enc_err := Some (ErrorString ''timeout'')\<rparr>,
              Error := \<lparr>chan_buf = [sendError (ErrorString ''timeout''),
                                     sendError (ErrorString ''timeout'')], chan_cap = 100,
                        chan_closed = False\<rparr>\<rparr>)"
    by (simp add: send_routine.simps send_iteration_def chan_recv_def getAllowedTypeName_def
                  Encode_string_def Encode_def enc_Write_def sock_Write_def tryPushError_def
                  chan_send_def ex_wc_def ex_sock_def ex_lib_def)
  have received: "recv_routine ex_lib ?R
     = Some (BlockedOnRead,
        ex_wc\<lparr>soc := ex_sock\<lparr>sock_rd := []\<rparr>,
              Recv := \<lparr>chan_buf = [VString ''hi''], chan_cap = 2, chan_closed = False\<rparr>,
              Error := \<lparr>chan_buf = [recvError (ErrorString ''json: cannot unmarshal'')],
                        chan_cap = 100, chan_closed = False\<rparr>\<rparr>)"
    by (simp add: recv_routine_def recv_loop.simps recv_iteration_def chan_recv_def
                  Decode_string_def Decode_def dec_Read_def sock_Read_def tryPushError_def
                  createTypeInterfaceReflectPointer_def chan_send_def
                  ex_wc_def ex_sock_def ex_lib_def)
  note never = items [THEN conjunct2, THEN conjunct2, THEN conjunct2, THEN conjunct1]
  from never have w: "waits (BlockedOnRead :: ex_value status)" unfolding received by simp
  have rd: "sock_rd (soc ?K) = Fault (ErrorString ''timeout'')
              # [Item (JString ''greeting''), Item (JString ''hi'')]" by simp
  have nm: "read_name ex_lib (Fault (ErrorString ''timeout'')) = Inl (ErrorString ''timeout'')"
    by (simp add: read_name_def)
  have nc: "\<not> stream_closed (ErrorString ''timeout'')" by (simp add: stream_closed_def)
  have kn: "no_shutdown ?K1" by (simp add: no_shutdown_def ex_wc_def)
  have ke: "\<not> chan_closed (Error ?K1)" by simp
  have kd: "dec_err (soc ?K1) = Some (ErrorString ''timeout'')" by simp
  from fault rd nm have first: "recv_iteration ex_lib ?K =
      Continue (?K\<lparr>soc := after_read (soc ?K) (Fault (ErrorString ''timeout''))
                               [Item (JString ''greeting''), Item (JString ''hi'')],
                   Error := lossy_push (Error ?K) (recvError (ErrorString ''timeout''))\<rparr>)"
    by blast
  from fault kn ke kd nc have again: "recv_iteration ex_lib ?K1 =
      Continue (?K1\<lparr>Error := lossy_push (Error ?K1) (recvError (ErrorString ''timeout''))\<rparr>)"
    by blast
  from fault rd have forever: "recv_routine ex_lib ?K = None" by blast
  from first have first': "recv_iteration ex_lib ?K = Continue ?K1"
    by (simp add: lossy_push_def ex_wc_def ex_sock_def)
  from again have again': "recv_iteration ex_lib ?K1 =
     Continue
        (ex_wc\<lparr>soc := ex_sock\<lparr>sock_rd := [Item (JString ''greeting''), Item (JString ''hi'')],
                               dec_err := Some (ErrorString ''timeout'')\<rparr>,
               Error := \<lparr>chan_buf = [recvError (ErrorString ''timeout''),
                                      recvError (ErrorString ''timeout'')], chan_cap = 100,
                         chan_closed = False\<rparr>\<rparr>)"
    by (simp add: lossy_push_def ex_wc_def ex_sock_def)
  from sent received w first' again' forever show ?thesis by simp
qed

subsection \<open>First in, first out\<close>

text \<open>
  Claim C2. Outbound: with values of registered types in the queue, a socket that takes
  every write and an encoder that has kept no error, what the send routine has added to the wire when it stops is the frames of
  the queued values, one after the other in the order of the queue. Inbound: when the
  stream starts with frames that decode on this endpoint, the receive routine appends
  their values to \<open>Recv\<close> in the order of the frames and goes on with the rest of the
  stream; if \<open>Recv\<close> has room for fewer, it has appended the values of the frames
  before, in order, and waits with the value of the next frame in hand, the later frames
  unread.
\<close>

theorem C2_fifo_order:
  assumes "\<forall>v \<in> set (chan_buf (Send wcS)). TypeOf lib v \<in> snd ` set (allowedTypes wcS)"
    and "\<not> chan_closed (Error wcS)"
    and "\<not> sock_closed (soc wcS)" and "sock_wfaults (soc wcS) = []"
    and "receiving wcR"
    and "length (chan_buf (Recv wcR)) \<le> chan_cap (Recv wcR)"
    and "\<forall>f \<in> set fs. decodes_to lib wcR f"
    and "sock_rd (soc wcR) = frame_events fs @ rest"
    and "enc_err (soc wcS) = None"
  shows "sock_wire (soc (snd (send_routine lib wcS)))
           = sock_wire (soc wcS) @ concat (map (frame_items lib wcS) (chan_buf (Send wcS)))
       \<and> recv_loop lib wcR =
           (let room = chan_cap (Recv wcR) - length (chan_buf (Recv wcR))
            in if length fs \<le> room
               then recv_loop lib
                      (wcR\<lparr>soc := (soc wcR)\<lparr>sock_rd := rest\<rparr>,
                           Recv := (Recv wcR)\<lparr>chan_buf :=
                                      chan_buf (Recv wcR) @ frame_values fs\<rparr>\<rparr>)
               else Some (BlockedOnRecvChan (frame_values fs ! room),
                     wcR\<lparr>soc := (soc wcR)\<lparr>sock_rd :=
                                    frame_events (drop (Suc room) fs) @ rest\<rparr>,
                          Recv := (Recv wcR)\<lparr>chan_buf :=
                                     chan_buf (Recv wcR) @ frame_values (take room fs)\<rparr>\<rparr>))"
proof -
  let ?room = "chan_cap (Recv wcR) - length (chan_buf (Recv wcR))"
  have out: "sock_wire (soc (snd (send_routine lib wcS)))
           = sock_wire (soc wcS) @ concat (map (frame_items lib wcS) (chan_buf (Send wcS)))"
    by (rule send_routine_wire [OF assms(1-4,9)])
  have inb: "recv_loop lib wcR =
           (if length fs \<le> ?room
               then recv_loop lib
                      (wcR\<lparr>soc := (soc wcR)\<lparr>sock_rd := rest\<rparr>,
                           Recv := (Recv wcR)\<lparr>chan_buf :=
                                      chan_buf (Recv wcR) @ frame_values fs\<rparr>\<rparr>)
               else Some (BlockedOnRecvChan (frame_values fs ! ?room),
                     wcR\<lparr>soc := (soc wcR)\<lparr>sock_rd :=
                                    frame_events (drop (Suc ?room) fs) @ rest\<rparr>,
                          Recv := (Recv wcR)\<lparr>chan_buf :=
                                     chan_buf (Recv wcR) @ frame_values (take ?room fs)\<rparr>\<rparr>))"
  proof (cases "length fs \<le> ?room")
    case True
    with assms(6) have "length (chan_buf (Recv wcR)) + length fs \<le> chan_cap (Recv wcR)"
      by simp
    from recv_loop_frames_fit [OF assms(5,7,8) this] True show ?thesis by simp
  next
    case False
    then have less: "?room < length fs" by simp
    obtain jn jp v where at: "fs ! ?room = (jn, jp, v)" by (cases "fs ! ?room")
    have split: "fs = take ?room fs @ (jn, jp, v) # drop (Suc ?room) fs"
      using id_take_nth_drop [OF less] at by simp
    have val: "frame_values fs ! ?room = v"
      using less at by (simp add: frame_values_def)
    have "recv_loop lib wcR =
           Some (BlockedOnRecvChan v,
            wcR\<lparr>soc := (soc wcR)\<lparr>sock_rd := frame_events (drop (Suc ?room) fs) @ rest\<rparr>,
                Recv := (Recv wcR)\<lparr>chan_buf :=
                          chan_buf (Recv wcR) @ frame_values (take ?room fs)\<rparr>\<rparr>)"
    proof (rule recv_loop_frames_full [OF assms(5)])
      show "\<forall>f \<in> set (take ?room fs @ (jn, jp, v) # drop (Suc ?room) fs). decodes_to lib wcR f"
        using assms(7) split by simp
      show "sock_rd (soc wcR)
              = frame_events (take ?room fs @ (jn, jp, v) # drop (Suc ?room) fs) @ rest"
        using assms(8) split by simp
      show "length (chan_buf (Recv wcR)) + length (take ?room fs) = chan_cap (Recv wcR)"
        using assms(6) less by simp
    qed
    with False val show ?thesis by simp
  qed
  from out inb show ?thesis unfolding Let_def by (rule conjI)
qed

text \<open>
  A greeting and a point are sent. Three frames arrive at an endpoint whose \<open>Recv\<close> has
  room for two values.
\<close>

theorem C2_fifo_order_witness:
  "sock_wire (soc (snd (send_routine ex_lib
      (ex_wc\<lparr>Send := \<lparr>chan_buf = [VString ''hi'', VPoint 1 2], chan_cap = 2,
                       chan_closed = False\<rparr>\<rparr>))))
     = [JString ''greeting'', JString ''hi'',
        JString ''point'', JObject [(''X'', 1), (''Y'', 2)]]
   \<and> recv_loop ex_lib
       (ex_wc\<lparr>soc := ex_sock\<lparr>sock_rd :=
          [Item (JString ''greeting''), Item (JString ''a''),
           Item (JString ''point''), Item (JObject [(''X'', 1), (''Y'', 2)]),
           Item (JString ''greeting''), Item (JString ''b'')]\<rparr>\<rparr>)
     = Some (BlockedOnRecvChan (VString ''b''),
        ex_wc\<lparr>soc := ex_sock\<lparr>sock_rd := []\<rparr>,
              Recv := \<lparr>chan_buf = [VString ''a'', VPoint 1 2], chan_cap = 2,
                       chan_closed = False\<rparr>\<rparr>)"
proof -
  let ?S = "ex_wc\<lparr>Send := \<lparr>chan_buf = [VString ''hi'', VPoint 1 2], chan_cap = 2,
                       chan_closed = False\<rparr>\<rparr>"
  let ?fs = "[(JString ''greeting'', JString ''a'', VString ''a''),
              (JString ''point'', JObject [(''X'', 1), (''Y'', 2)], VPoint 1 2),
              (JString ''greeting'', JString ''b'', VString ''b'')]"
  let ?R = "ex_wc\<lparr>soc := ex_sock\<lparr>sock_rd :=
          [Item (JString ''greeting''), Item (JString ''a''),
           Item (JString ''point''), Item (JObject [(''X'', 1), (''Y'', 2)]),
           Item (JString ''greeting''), Item (JString ''b'')]\<rparr>\<rparr>"
  have h1: "\<forall>v \<in> set (chan_buf (Send ?S)). TypeOf ex_lib v \<in> snd ` set (allowedTypes ?S)"
    by (simp add: ex_lib_def ex_wc_def)
  have h2: "\<not> chan_closed (Error ?S)" by (simp add: ex_wc_def)
  have h3: "\<not> sock_closed (soc ?S)" by (simp add: ex_wc_def ex_sock_def)
  have h4: "sock_wfaults (soc ?S) = []" by (simp add: ex_wc_def ex_sock_def)
  have h5: "receiving ?R" by (simp add: receiving_def no_shutdown_def ex_wc_def ex_sock_def)
  have h6: "length (chan_buf (Recv ?R)) \<le> chan_cap (Recv ?R)" by (simp add: ex_wc_def)
  have h7: "\<forall>f \<in> set ?fs. decodes_to ex_lib ?R f"
    by (simp add: decodes_to_def ex_lib_def ex_wc_def)
  have h8: "sock_rd (soc ?R) = frame_events ?fs @ []" by (simp add: frame_events_def)
  have h9: "enc_err (soc ?S) = None" by (simp add: ex_wc_def ex_sock_def)
  from C2_fifo_order [OF h1 h2 h3 h4 h5 h6 h7 h8 h9]
  show ?thesis
    by (simp add: Let_def frame_items_def getAllowedTypeName_def frame_values_def
                  frame_events_def ex_lib_def ex_wc_def ex_sock_def)
qed

subsection \<open>Round trip\<close>

text \<open>
  Claim C1. One endpoint has a value \<open>v\<close> of a registered type in its send queue, and a
  socket, nothing written to it yet, that takes every write; its encoder has kept no error. The value is valid: the
  codec encodes it and decodes the text back to \<open>v\<close> in the type of \<open>v\<close>; registered
  names survive the codec too. The peer has the same registry and reads what was
  written. Then the wire holds the frame, the registered name followed by the JSON text of
  \<open>v\<close>, and the peer's receive routine puts \<open>v\<close> itself on its \<open>Recv\<close>, or, if
  \<open>Recv\<close> is full, waits to put \<open>v\<close> there.
\<close>

theorem C1_round_trip:
  assumes "chan_buf (Send wcA) = [v]"
    and "TypeOf lib v \<in> snd ` set (allowedTypes wcA)"
    and "distinct (map fst (allowedTypes wcA))"
    and "\<not> chan_closed (Error wcA)"
    and "\<not> sock_closed (soc wcA)" and "sock_wfaults (soc wcA) = []"
    and "sock_wire (soc wcA) = []"
    and "Marshal lib v = Inr j" and "Unmarshal lib (TypeOf lib v) j = Inr v"
    and "\<forall>n \<in> fst ` set (allowedTypes wcA). UnmarshalString lib (MarshalString lib n) = Inr n"
    and "map_of (allowedTypes wcB) = map_of (allowedTypes wcA)"
    and "receiving wcB"
    and "sock_rd (soc wcB) = remote_reads (soc (snd (send_routine lib wcA)))"
    and "enc_err (soc wcA) = None"
  shows "sock_wire (soc (snd (send_routine lib wcA)))
           = [MarshalString lib (fst (getAllowedTypeName lib wcA v)), j]
       \<and> recv_routine lib wcB =
           Some (if length (chan_buf (Recv wcB)) < chan_cap (Recv wcB)
                 then (BlockedOnRead,
                       wcB\<lparr>soc := (soc wcB)\<lparr>sock_rd := []\<rparr>,
                            Recv := (Recv wcB)\<lparr>chan_buf := chan_buf (Recv wcB) @ [v]\<rparr>\<rparr>)
                 else (BlockedOnRecvChan v, wcB\<lparr>soc := (soc wcB)\<lparr>sock_rd := []\<rparr>\<rparr>))"
proof -
  let ?n = "fst (getAllowedTypeName lib wcA v)"
  from getAllowedTypeName_registered [OF assms(2)]
  have name: "getAllowedTypeName lib wcA v = (?n, True)" by auto
  from getAllowedTypeName_True [OF name]
  have entry: "(?n, TypeOf lib v) \<in> set (allowedTypes wcA)" .
  with assms(3) have "map_of (allowedTypes wcA) ?n = Some (TypeOf lib v)" by simp
  with assms(11) have ty: "map_of (allowedTypes wcB) ?n = Some (TypeOf lib v)" by simp
  from entry have "?n \<in> fst ` set (allowedTypes wcA)" by force
  with assms(10) have "UnmarshalString lib (MarshalString lib ?n) = Inr ?n" by (rule bspec)
  then have nm: "read_name lib (Item (MarshalString lib ?n)) = Inr ?n"
    by (simp add: read_name_def)
  have pl: "read_payload lib (TypeOf lib v) (Item j) = Inr v"
    using assms(9) by (simp add: read_payload_def)
  \<comment> \<open>the sender\<close>
  from send_iteration_through [OF assms(1,2,4,5,6,14)]
  obtain wc' where step: "send_iteration lib wcA = Continue wc'"
    and snd': "Send wc' = (Send wcA)\<lparr>chan_buf := []\<rparr>"
    and open': "\<not> sock_closed (soc wc')"
    and wire': "sock_wire (soc wc') = sock_wire (soc wcA) @ frame_items lib wcA v"
    by blast
  have "chan_buf (Send wc') = []" by (simp add: snd')
  from send_routine_Stop [OF send_iteration_empty [OF this]]
  have "snd (send_routine lib wc') = wc'" by simp
  then have sent: "snd (send_routine lib wcA) = wc'"
    by (simp add: send_routine_Continue [OF step])
  have wire: "sock_wire (soc (snd (send_routine lib wcA))) = [MarshalString lib ?n, j]"
    by (simp add: sent wire' assms(7,8) frame_items_def)
  \<comment> \<open>the peer\<close>
  from assms(12) have ns: "no_shutdown wcB" and so: "\<not> sock_closed (soc wcB)"
    and de: "dec_err (soc wcB) = None" and ro: "\<not> chan_closed (Recv wcB)"
    by (simp_all add: receiving_def)
  have rd: "sock_rd (soc wcB) = Item (MarshalString lib ?n) # Item j # []"
    using assms(13) wire open' by (simp add: remote_reads_def sent)
  note pass = recv_iteration_payload [OF ns so de rd nm ty pl]
  have loop: "recv_loop lib wcB =
           Some (if length (chan_buf (Recv wcB)) < chan_cap (Recv wcB)
                 then (BlockedOnRead,
                       wcB\<lparr>soc := (soc wcB)\<lparr>sock_rd := []\<rparr>,
                            Recv := (Recv wcB)\<lparr>chan_buf := chan_buf (Recv wcB) @ [v]\<rparr>\<rparr>)
                 else (BlockedOnRecvChan v, wcB\<lparr>soc := (soc wcB)\<lparr>sock_rd := []\<rparr>\<rparr>))"
  proof (cases "length (chan_buf (Recv wcB)) < chan_cap (Recv wcB)")
    case True
    let ?wc1 = "wcB\<lparr>soc := (soc wcB)\<lparr>sock_rd := []\<rparr>,
                    Recv := (Recv wcB)\<lparr>chan_buf := chan_buf (Recv wcB) @ [v]\<rparr>\<rparr>"
    from pass ro True have "recv_iteration lib wcB = Continue ?wc1"
      by (simp add: chan_send_open)
    then have "recv_loop lib wcB = recv_loop lib ?wc1" by (rule recv_loop_Continue)
    also have "recv_loop lib ?wc1 = Some (BlockedOnRead, ?wc1)"
      by (rule recv_loop_Stop, rule recv_iteration_wait)
         (use ns so de in \<open>simp_all add: no_shutdown_def\<close>)
    finally show ?thesis using True by simp
  next
    case False
    from pass ro False
    have "recv_iteration lib wcB =
            Stop (BlockedOnRecvChan v) (wcB\<lparr>soc := (soc wcB)\<lparr>sock_rd := []\<rparr>\<rparr>)"
      by (simp add: chan_send_open)
    from recv_loop_Stop [OF this] False show ?thesis by simp
  qed
  then have "recv_routine lib wcB = recv_loop lib wcB"
    by (auto simp: waits_def intro: recv_routine_waits split: if_splits)
  with wire loop show ?thesis by simp
qed

text \<open>A point is sent between two endpoints for \<open>greeting\<close> and \<open>point\<close>.\<close>

theorem C1_round_trip_witness:
  "Marshal ex_lib (VPoint 1 2) = Inr (JObject [(''X'', 1), (''Y'', 2)])
   \<and> Unmarshal ex_lib (TypeOf ex_lib (VPoint 1 2)) (JObject [(''X'', 1), (''Y'', 2)])
       = Inr (VPoint 1 2)
   \<and> sock_wire (soc (snd (send_routine ex_lib
        (ex_wc\<lparr>Send := \<lparr>chan_buf = [VPoint 1 2], chan_cap = 2, chan_closed = False\<rparr>\<rparr>))))
       = [JString ''point'', JObject [(''X'', 1), (''Y'', 2)]]
   \<and> recv_routine ex_lib
        (ex_wc\<lparr>soc := ex_sock\<lparr>sock_rd := [Item (JString ''point''),
                                            Item (JObject [(''X'', 1), (''Y'', 2)])]\<rparr>\<rparr>)
       = Some (BlockedOnRead,
          ex_wc\<lparr>soc := ex_sock\<lparr>sock_rd := []\<rparr>,
                Recv := \<lparr>chan_buf = [VPoint 1 2], chan_cap = 2, chan_closed = False\<rparr>\<rparr>)"
proof -
  let ?A = "ex_wc\<lparr>Send := \<lparr>chan_buf = [VPoint 1 2], chan_cap = 2, chan_closed = False\<rparr>\<rparr>"
  let ?B = "ex_wc\<lparr>soc := ex_sock\<lparr>sock_rd := [Item (JString ''point''),
                                            Item (JObject [(''X'', 1), (''Y'', 2)])]\<rparr>\<rparr>"
  have sent: "send_routine ex_lib ?A =
      (BlockedOnSendChan,
       ex_wc\<lparr>Send := \<lparr>chan_buf = [], chan_cap = 2, chan_closed = False\<rparr>,
             soc := ex_sock\<lparr>sock_wire := [JString ''point'', JObject [(''X'', 1), (''Y'', 2)]]\<rparr>\<rparr>)"
    by (simp add: send_routine.simps send_iteration_def chan_recv_def getAllowedTypeName_def
                  Encode_string_def Encode_def enc_Write_def sock_Write_def
                  ex_wc_def ex_sock_def ex_lib_def)
  have h1: "chan_buf (Send ?A) = [VPoint 1 2]" by simp
  have h2: "TypeOf ex_lib (VPoint 1 2) \<in> snd ` set (allowedTypes ?A)"
    by (simp add: ex_lib_def ex_wc_def)
  have h3: "distinct (map fst (allowedTypes ?A))" by (simp add: ex_wc_def)
  have h4: "\<not> chan_closed (Error ?A)" by (simp add: ex_wc_def)
  have h5: "\<not> sock_closed (soc ?A)" by (simp add: ex_wc_def ex_sock_def)
  have h6: "sock_wfaults (soc ?A) = []" by (simp add: ex_wc_def ex_sock_def)
  have h7: "sock_wire (soc ?A) = []" by (simp add: ex_wc_def ex_sock_def)
  have h8: "Marshal ex_lib (VPoint 1 2) = Inr (JObject [(''X'', 1), (''Y'', 2)])"
    by (simp add: ex_lib_def)
  have h9: "Unmarshal ex_lib (TypeOf ex_lib (VPoint 1 2)) (JObject [(''X'', 1), (''Y'', 2)])
              = Inr (VPoint 1 2)"
    by (simp add: ex_lib_def)
  have h10: "\<forall>n \<in> fst ` set (allowedTypes ?A).
               UnmarshalString ex_lib (MarshalString ex_lib n) = Inr n"
    by (simp add: ex_lib_def)
  have h11: "map_of (allowedTypes ?B) = map_of (allowedTypes ?A)" by simp
  have h12: "receiving ?B" by (simp add: receiving_def no_shutdown_def ex_wc_def ex_sock_def)
  have h13: "sock_rd (soc ?B) = remote_reads (soc (snd (send_routine ex_lib ?A)))"
    by (simp add: sent remote_reads_def ex_sock_def)
  have h14: "enc_err (soc ?A) = None" by (simp add: ex_wc_def ex_sock_def)
  from C1_round_trip [OF h1 h2 h3 h4 h5 h6 h7 h8 h9 h10 h11 h12 h13 h14] h8 h9
  show ?thesis
    by (simp add: getAllowedTypeName_def ex_lib_def ex_wc_def ex_sock_def)
qed

end
